theory Spec2Isabelle
  imports Main
begin

section \<open>The chess room server: rooms, joins, moves and disconnects\<close>

text \<open>
  The module keeps a registry of rooms (\<open>rooms\<close>, keyed by room code) and relays
  join, move and disconnect events of socket.io connections. The development below
  embeds the handlers of the module revision that announces \<open>room_joined\<close> and
  \<open>opponent_joined\<close>, validates the promotion piece and the move flags and stores a
  normalised last move. The file \<open>server/index.js\<close> holds an earlier revision of the same
  module: its handlers agree on room membership, turn order and disconnects, but it
  validates only the squares, stores a plain copy of the move and sends no
  \<open>room_joined\<close> or \<open>opponent_joined\<close>.
\<close>

subsection \<open>JavaScript values of the event payloads\<close>

text \<open>
  A payload is whatever the client sent. Numbers are split by what the handlers test:
  \<open>JInt i\<close> is a number with the integral value \<open>i\<close> (\<open>Number.isInteger\<close> holds),
  \<open>JFrac\<close> stands for any other number that is not \<open>NaN\<close> (a fraction or an
  infinity: truthy, and never an integer), \<open>JNaN\<close> is \<open>NaN\<close>. An object is the list of
  its own properties; the first binding of a key is the one read. An array behaves as
  an object without any of the properties the handlers read.
\<close>

datatype jsval =
    JUndefined
  | JNull
  | JBool bool
  | JInt int
  | JFrac
  | JNaN
  | JStr string
  | JObj "(string \<times> jsval) list"

datatype jstype = TUndefined | TObject | TBoolean | TNumber | TString

fun typeof :: "jsval \<Rightarrow> jstype" where
  "typeof JUndefined = TUndefined"
| "typeof JNull = TObject"
| "typeof (JBool b) = TBoolean"
| "typeof (JInt i) = TNumber"
| "typeof JFrac = TNumber"
| "typeof JNaN = TNumber"
| "typeof (JStr s) = TString"
| "typeof (JObj fs) = TObject"

text \<open>Truthiness, as \<open>!x\<close> and \<open>x || y\<close> read it.\<close>

fun truthy :: "jsval \<Rightarrow> bool" where
  "truthy JUndefined = False"
| "truthy JNull = False"
| "truthy (JBool b) = b"
| "truthy (JInt i) = (i \<noteq> 0)"
| "truthy JFrac = True"
| "truthy JNaN = False"
| "truthy (JStr s) = (s \<noteq> [])"
| "truthy (JObj fs) = True"

definition js_or :: "jsval \<Rightarrow> jsval \<Rightarrow> jsval" where
  "js_or a b = (if truthy a then a else b)"

text \<open>
  Reading a property, \<open>v.k\<close> or a destructuring \<open>const {k} = v\<close>, of a value that is
  neither \<open>undefined\<close> nor \<open>null\<close>: a missing property reads as \<open>undefined\<close>, and
  no primitive has any of the properties the handlers read.
\<close>

fun prop_of :: "jsval \<Rightarrow> string \<Rightarrow> jsval" where
  "prop_of (JObj fs) k = (case map_of fs k of None \<Rightarrow> JUndefined | Some v \<Rightarrow> v)"
| "prop_of v k = JUndefined"

fun isInteger :: "jsval \<Rightarrow> bool" where
  "isInteger (JInt i) = True"
| "isInteger v = False"

fun int_of :: "jsval \<Rightarrow> int" where
  "int_of (JInt i) = i"
| "int_of v = 0"

fun str_of :: "jsval \<Rightarrow> string" where
  "str_of (JStr s) = s"
| "str_of v = []"

subsection \<open>Errors\<close>

text \<open>
  \<open>Error m\<close> is \<open>new Error(m)\<close>. \<open>TypeError\<close> is what destructuring \<open>null\<close> throws;
  its message is the engine's. Every message the module writes is non-empty, so the
  fallback of \<open>err.message || "..."\<close> in the event handlers is never taken and the
  \<open>error_msg\<close> notification carries the error's own message.
\<close>

datatype error = Error string | TypeError

subsection \<open>Rooms\<close>

datatype color = WHITE | BLACK

fun toLowerCase :: "color \<Rightarrow> string" where
  "toLowerCase WHITE = ''white''"
| "toLowerCase BLACK = ''black''"

record lastmove =
  mv_from :: jsval
  mv_to :: jsval
  promo :: jsval
  isCastle :: jsval
  isEnPassant :: jsval
  isDoublePawnPush :: jsval

record gamestate =
  lastMove :: "lastmove option"
  boardFEN :: string

record player =
  uid :: string
  color :: color
  socketId :: string

record room =
  code :: string
  players :: "player list"
  state :: gamestate
  sideToMove :: color
  lastActive :: int

definition initialState :: gamestate where
  "initialState = \<lparr>lastMove = None, boardFEN = ''startpos''\<rparr>"

definition createRoom :: "string \<Rightarrow> int \<Rightarrow> room" where
  "createRoom c now =
     \<lparr>code = c, players = [], state = initialState, sideToMove = WHITE, lastActive = now\<rparr>"

subsection \<open>The server's state and what it sends\<close>

text \<open>
  \<open>Direct s\<close> is \<open>socket.emit\<close> on the connection \<open>s\<close>; \<open>Channel ch\<close> is
  \<open>io.to(ch).emit\<close>, delivered to the connections that joined the channel \<open>ch\<close>
  (socket.io puts every connection in the channel named by its own id).
\<close>

datatype target = Direct string | Channel string

record snapshot =
  snap_code :: string
  snap_players :: "(string \<times> color) list"
  snap_sideToMove :: color
  snap_state :: gamestate

datatype message =
    RoomJoined string string
  | OpponentJoined
  | RoomState snapshot
  | MoveApplied jsval color gamestate
  | ErrorMsg error

text \<open>
  \<open>rooms\<close> is the registry; \<open>membership s\<close> is \<open>socket.data.membership\<close> of the
  connection \<open>s\<close>; \<open>joined\<close> holds the pairs (connection, channel) made by
  \<open>socket.join\<close>; \<open>outbox\<close> lists what was sent, oldest first, each message with its
  content at the time of sending. Every handler takes the connection's id and \<open>now\<close>, the
  value of \<open>Date.now()\<close> while the event is handled (one event runs to completion, and
  nothing depends on two readings within it being apart).
\<close>

record world =
  rooms :: "string \<rightharpoonup> room"
  membership :: "string \<rightharpoonup> (string \<times> string)"
  joined :: "(string \<times> string) set"
  outbox :: "(target \<times> message) list"

definition init_world :: world where
  "init_world = \<lparr>rooms = Map.empty, membership = Map.empty, joined = {}, outbox = []\<rparr>"

definition emitRoomState :: "room \<Rightarrow> target \<times> message" where
  "emitRoomState r =
     (Channel (code r),
      RoomState \<lparr>snap_code = code r,
                 snap_players = map (\<lambda>p. (uid p, color p)) (players r),
                 snap_sideToMove = sideToMove r,
                 snap_state = state r\<rparr>)"

text \<open>\<open>Array.prototype.findIndex\<close>: the first index whose element satisfies the test.\<close>

fun findIndex :: "('a \<Rightarrow> bool) \<Rightarrow> 'a list \<Rightarrow> nat option" where
  "findIndex P [] = None"
| "findIndex P (x # xs) =
     (if P x then Some 0 else (case findIndex P xs of None \<Rightarrow> None | Some i \<Rightarrow> Some (Suc i)))"

text \<open>\<open>xs.splice(i, 1)\<close>: the list without its element at \<open>i\<close>.\<close>

definition splice1 :: "nat \<Rightarrow> 'a list \<Rightarrow> 'a list" where
  "splice1 i xs = take i xs @ drop (Suc i) xs"

subsection \<open>Disconnect\<close>

text \<open>
  \<open>handleDisconnect\<close> returns early, leaving the membership in place, when the
  connection has none or its room is gone. The snapshot is sent before the reset of an
  emptied room.
\<close>

definition handleDisconnect :: "string \<Rightarrow> int \<Rightarrow> world \<Rightarrow> world" where
  "handleDisconnect sid now w =
     (case membership w sid of
        None \<Rightarrow> w
      | Some (mc, mu) \<Rightarrow>
          (case rooms w mc of
             None \<Rightarrow> w
           | Some r \<Rightarrow>
               (let (r1, out) =
                      (case findIndex (\<lambda>p. uid p = mu) (players r) of
                         None \<Rightarrow> (r, [])
                       | Some i \<Rightarrow>
                           (let r' = r\<lparr>players := splice1 i (players r), lastActive := now\<rparr>
                            in (r', [emitRoomState r'])));
                    r2 = (if length (players r1) = 0
                          then r1\<lparr>sideToMove := WHITE, state := initialState\<rparr>
                          else r1)
                in w\<lparr>rooms := (rooms w)(mc \<mapsto> r2),
                     membership := (membership w)(sid := None),
                     outbox := outbox w @ out\<rparr>)))"

subsection \<open>Join\<close>

text \<open>
  A handler returns the error it threw, if any, with the state as it was at the throw:
  what was written before a throw stays written. \<open>room\<close> is a reference into the
  registry; the implicit leave of another room in between writes under another key, so the
  room read at the start is still the registry's entry when the player is added.
\<close>

definition handleJoinRoom :: "string \<Rightarrow> int \<Rightarrow> jsval \<Rightarrow> world \<Rightarrow> error option \<times> world" where
  "handleJoinRoom sid now payload0 w =
     (let payload = (if payload0 = JUndefined then JObj [] else payload0) in
      if payload = JNull then (Some TypeError, w)
      else
        (let jcode = prop_of payload ''code''; juid = prop_of payload ''uid'' in
         if \<not> truthy jcode \<or> typeof jcode \<noteq> TString
         then (Some (Error ''Room code is required''), w)
         else if \<not> truthy juid \<or> typeof juid \<noteq> TString
         then (Some (Error ''User id is required''), w)
         else
           (let c = str_of jcode; u = str_of juid in
            case rooms w c of
              None \<Rightarrow> (Some (Error ''Room not found''), w)
            | Some r \<Rightarrow>
                (let existing = findIndex (\<lambda>p. uid p = u) (players r) in
                 if existing = None \<and> length (players r) \<ge> 2
                 then (Some (Error ''Room is full''), w)
                 else
                   (let w1 = (case membership w sid of
                                None \<Rightarrow> w
                              | Some (pc, pu) \<Rightarrow>
                                  if pc \<noteq> c
                                  then handleDisconnect sid now (w\<lparr>joined := joined w - {(sid, pc)}\<rparr>)
                                  else w);
                        (ps, pl) =
                          (case existing of
                             Some i \<Rightarrow>
                               (let p = (players r ! i)\<lparr>socketId := sid\<rparr>
                                in ((players r)[i := p], p))
                           | None \<Rightarrow>
                               (let col = (if length (players r) = 0 then WHITE else BLACK);
                                    p = \<lparr>uid = u, color = col, socketId = sid\<rparr>
                                in (players r @ [p], p)));
                        r' = r\<lparr>players := ps, lastActive := now\<rparr>;
                        notify =
                          (if length ps = 2 \<and> existing = None
                           then (case find (\<lambda>p. uid p \<noteq> u) ps of
                                   Some other \<Rightarrow> [(Channel (socketId other), OpponentJoined)]
                                 | None \<Rightarrow> [])
                           else [])
                    in (None,
                        w1\<lparr>rooms := (rooms w1)(c \<mapsto> r'),
                            membership := (membership w1)(sid \<mapsto> (c, u)),
                            joined := insert (sid, c) (joined w1),
                            outbox := outbox w1
                              @ [(Direct sid, RoomJoined (code r') (toLowerCase (color pl)))]
                              @ notify
                              @ [emitRoomState r']\<rparr>))))))"

subsection \<open>Move\<close>

definition validateMovePayload :: "jsval \<Rightarrow> error option" where
  "validateMovePayload move =
     (let from = prop_of move ''from''; to = prop_of move ''to'';
          pr = prop_of move ''promo''; ca = prop_of move ''isCastle'';
          ep = prop_of move ''isEnPassant''; dp = prop_of move ''isDoublePawnPush''
      in if \<not> isInteger from \<or> \<not> isInteger to
         then Some (Error ''Move coordinates must be integers'')
         else if int_of from < 0 \<or> int_of from > 63 \<or> int_of to < 0 \<or> int_of to > 63
         then Some (Error ''Squares must be between 0 and 63'')
         else if int_of from = int_of to
         then Some (Error ''From and to squares must differ'')
         else if pr \<noteq> JUndefined \<and> pr \<noteq> JNull \<and>
                 (typeof pr \<noteq> TString \<or> pr \<notin> set [JStr ''Q'', JStr ''R'', JStr ''B'', JStr ''N''])
         then Some (Error ''Promotion piece must be Q, R, B, or N'')
         else if ca \<noteq> JUndefined \<and> typeof ca \<noteq> TBoolean
         then Some (Error ''isCastle must be boolean'')
         else if ep \<noteq> JUndefined \<and> typeof ep \<noteq> TBoolean
         then Some (Error ''isEnPassant must be boolean'')
         else if dp \<noteq> JUndefined \<and> typeof dp \<noteq> TBoolean
         then Some (Error ''isDoublePawnPush must be boolean'')
         else None)"

definition applyMoveServer :: "room \<Rightarrow> jsval \<Rightarrow> room" where
  "applyMoveServer r move =
     r\<lparr>state := (state r)\<lparr>lastMove := Some
           \<lparr>mv_from = prop_of move ''from'',
            mv_to = prop_of move ''to'',
            promo = js_or (prop_of move ''promo'') JNull,
            isCastle = js_or (prop_of move ''isCastle'') (JBool False),
            isEnPassant = js_or (prop_of move ''isEnPassant'') (JBool False),
            isDoublePawnPush = js_or (prop_of move ''isDoublePawnPush'') (JBool False)\<rparr>\<rparr>,
       sideToMove := (if sideToMove r = WHITE then BLACK else WHITE)\<rparr>"

definition validateLegalMove :: "gamestate \<Rightarrow> jsval \<Rightarrow> bool" where
  "validateLegalMove st move = True"

definition handleMove :: "string \<Rightarrow> int \<Rightarrow> jsval \<Rightarrow> world \<Rightarrow> error option \<times> world" where
  "handleMove sid now payload0 w =
     (case membership w sid of
        None \<Rightarrow> (Some (Error ''You are not joined to a room''), w)
      | Some (mc, mu) \<Rightarrow>
          (let payload = (if payload0 = JUndefined then JObj [] else payload0) in
           if payload = JNull then (Some TypeError, w)
           else
             (let jcode = prop_of payload ''code''; move = prop_of payload ''move'' in
              if \<not> truthy jcode \<or> typeof jcode \<noteq> TString
              then (Some (Error ''Room code is required''), w)
              else if mc \<noteq> str_of jcode
              then (Some (Error ''You are not part of this room''), w)
              else if \<not> truthy move \<or> typeof move \<noteq> TObject
              then (Some (Error ''Move payload is required''), w)
              else
                (case rooms w (str_of jcode) of
                   None \<Rightarrow> (Some (Error ''Room not found''), w)
                 | Some r \<Rightarrow>
                     (case find (\<lambda>p. uid p = mu) (players r) of
                        None \<Rightarrow> (Some (Error ''Player not found in room''), w)
                      | Some pl \<Rightarrow>
                          if color pl \<noteq> sideToMove r
                          then (Some (Error ''Not your turn''), w)
                          else
                            (case validateMovePayload move of
                               Some e \<Rightarrow> (Some e, w)
                             | None \<Rightarrow>
                                 if \<not> validateLegalMove (state r) move
                                 then (Some (Error ''Illegal move''), w)
                                 else
                                   (let r1 = applyMoveServer r move;
                                        out = (Channel (str_of jcode),
                                               MoveApplied move (sideToMove r1) (state r1));
                                        r2 = r1\<lparr>lastActive := now\<rparr>
                                    in (None,
                                        w\<lparr>rooms := (rooms w)(str_of jcode \<mapsto> r2),
                                           outbox := outbox w @ [out]\<rparr>))))))))"

subsection \<open>The event handlers, room creation and the sweep\<close>

text \<open>
  The \<open>join_room\<close> and \<open>move\<close> listeners catch what the handler throws and answer the
  sender alone. A \<open>disconnect\<close> event reaches the module after socket.io has taken
  the connection out of every channel.
\<close>

definition on_join_room :: "string \<Rightarrow> int \<Rightarrow> jsval \<Rightarrow> world \<Rightarrow> world" where
  "on_join_room sid now payload w =
     (case handleJoinRoom sid now payload w of
        (None, w') \<Rightarrow> w'
      | (Some e, w') \<Rightarrow> w'\<lparr>outbox := outbox w' @ [(Direct sid, ErrorMsg e)]\<rparr>)"

definition on_move :: "string \<Rightarrow> int \<Rightarrow> jsval \<Rightarrow> world \<Rightarrow> world" where
  "on_move sid now payload w =
     (case handleMove sid now payload w of
        (None, w') \<Rightarrow> w'
      | (Some e, w') \<Rightarrow> w'\<lparr>outbox := outbox w' @ [(Direct sid, ErrorMsg e)]\<rparr>)"

definition on_disconnect :: "string \<Rightarrow> int \<Rightarrow> world \<Rightarrow> world" where
  "on_disconnect sid now w =
     handleDisconnect sid now (w\<lparr>joined := {(s, ch). (s, ch) \<in> joined w \<and> s \<noteq> sid}\<rparr>)"

text \<open>
  \<open>POST /room\<close> draws codes until one is unused and registers a fresh room under it;
  the code drawn last is the argument here.
\<close>

definition post_room :: "string \<Rightarrow> int \<Rightarrow> world \<Rightarrow> world" where
  "post_room c now w = w\<lparr>rooms := (rooms w)(c \<mapsto> createRoom c now)\<rparr>"

definition TEN_MINUTES :: int where
  "TEN_MINUTES = 10 * 60 * 1000"

definition sweep :: "int \<Rightarrow> world \<Rightarrow> world" where
  "sweep now w =
     w\<lparr>rooms := (\<lambda>c. case rooms w c of
                        None \<Rightarrow> None
                      | Some r \<Rightarrow>
                          if length (players r) = 0 \<and> now - lastActive r > TEN_MINUTES
                          then None else Some r)\<rparr>"

text \<open>
  The states the server can be in: the empty registry, and whatever an event makes of a
  reachable state. Events of any connection id are allowed at any time, which covers
  every order in which real connections can act.
\<close>

inductive reachable :: "world \<Rightarrow> bool" where
  r_init: "reachable init_world"
| r_post: "reachable w \<Longrightarrow> rooms w c = None \<Longrightarrow> reachable (post_room c now w)"
| r_join: "reachable w \<Longrightarrow> reachable (on_join_room sid now payload w)"
| r_move: "reachable w \<Longrightarrow> reachable (on_move sid now payload w)"
| r_disconnect: "reachable w \<Longrightarrow> reachable (on_disconnect sid now w)"
| r_sweep: "reachable w \<Longrightarrow> reachable (sweep now w)"

subsection \<open>Auxiliary notions for the proofs\<close>

text \<open>
  \<open>room_ok\<close> is the invariant of a registered room; \<open>leave_other\<close> is the implicit
  leave of another room at the start of a join, and \<open>seat\<close> the roster and the joiner's
  entry after the join, both as \<open>handleJoinRoom\<close> computes them.
\<close>

definition room_ok :: "string \<Rightarrow> room \<Rightarrow> bool" where
  "room_ok c r =
     (code r = c \<and> length (players r) \<le> 2 \<and> distinct (map uid (players r)) \<and>
      (players r = [] \<longrightarrow> state r = initialState \<and> sideToMove r = WHITE))"

definition store_ok :: "world \<Rightarrow> bool" where
  "store_ok w = (\<forall>c r. rooms w c = Some r \<longrightarrow> room_ok c r)"

definition leave_other :: "string \<Rightarrow> int \<Rightarrow> string \<Rightarrow> world \<Rightarrow> world" where
  "leave_other sid now c w =
     (case membership w sid of
        None \<Rightarrow> w
      | Some (pc, pu) \<Rightarrow>
          if pc \<noteq> c
          then handleDisconnect sid now (w\<lparr>joined := joined w - {(sid, pc)}\<rparr>)
          else w)"

definition seat :: "string \<Rightarrow> string \<Rightarrow> room \<Rightarrow> player list \<times> player" where
  "seat sid u r =
     (case findIndex (\<lambda>p. uid p = u) (players r) of
        Some i \<Rightarrow> ((players r)[i := (players r ! i)\<lparr>socketId := sid\<rparr>],
                   (players r ! i)\<lparr>socketId := sid\<rparr>)
      | None \<Rightarrow>
          (players r @ [\<lparr>uid = u, color = (if length (players r) = 0 then WHITE else BLACK),
                          socketId = sid\<rparr>],
           \<lparr>uid = u, color = (if length (players r) = 0 then WHITE else BLACK), socketId = sid\<rparr>))"

subsection \<open>A sample session\<close>

text \<open>
  One run of the server, used to instantiate the theorems: the room \<open>ABCDEF\<close> is
  created, \<open>u1\<close> joins on the connection \<open>s1\<close> and \<open>u2\<close> on \<open>s2\<close>, \<open>u1\<close> moves
  from square 12 to square 28, and both connections close.
\<close>

definition join_payload :: "string \<Rightarrow> string \<Rightarrow> jsval" where
  "join_payload c u = JObj [(''code'', JStr c), (''uid'', JStr u)]"

definition move_payload :: "string \<Rightarrow> jsval \<Rightarrow> jsval" where
  "move_payload c m = JObj [(''code'', JStr c), (''move'', m)]"

definition e2e4 :: jsval where
  "e2e4 = JObj [(''from'', JInt 12), (''to'', JInt 28)]"

definition e2e4_stored :: lastmove where
  "e2e4_stored = \<lparr>mv_from = JInt 12, mv_to = JInt 28, promo = JNull, isCastle = JBool False,
                   isEnPassant = JBool False, isDoublePawnPush = JBool False\<rparr>"

definition w_created :: world where
  "w_created = post_room ''ABCDEF'' 0 init_world"

definition w_one :: world where
  "w_one = on_join_room ''s1'' 1 (join_payload ''ABCDEF'' ''u1'') w_created"

definition w_two :: world where
  "w_two = on_join_room ''s2'' 2 (join_payload ''ABCDEF'' ''u2'') w_one"

definition w_moved :: world where
  "w_moved = on_move ''s1'' 3 (move_payload ''ABCDEF'' e2e4) w_two"

definition w_vacated :: world where
  "w_vacated = on_disconnect ''s2'' 5 (on_disconnect ''s1'' 4 w_moved)"

definition snap0 :: "(string \<times> color) list \<Rightarrow> color \<Rightarrow> gamestate \<Rightarrow> message" where
  "snap0 ps s g = RoomState \<lparr>snap_code = ''ABCDEF'', snap_players = ps, snap_sideToMove = s, snap_state = g\<rparr>"

definition promote_q :: jsval where
  "promote_q = JObj [(''from'', JInt 52), (''to'', JInt 60), (''promo'', JStr ''Q''),
                     (''isCastle'', JBool False)]"

text \<open>
  Two more runs from the state with both players seated: \<open>u1\<close> joins again on a third
  connection; and the connection of \<open>u1\<close> closes, after which a new identity \<open>u3\<close> joins.
\<close>

definition w_reconnected :: world where
  "w_reconnected = on_join_room ''s3'' 3 (join_payload ''ABCDEF'' ''u1'') w_two"

definition w_white_left :: world where
  "w_white_left = on_disconnect ''s1'' 3 w_two"

definition w_two_black :: world where
  "w_two_black = on_join_room ''s3'' 4 (join_payload ''ABCDEF'' ''u3'') w_white_left"

subsection \<open>The move format, in the words of the specification\<close>

text \<open>
  These predicates are written from the specification, to be compared with
  \<open>validateMovePayload\<close>. A property is present when reading it does not give
  \<open>undefined\<close>. \<open>malformed_as_claimed\<close> is the claim as written: a promotion that is present
  must be one of the four pieces. \<open>structurally_malformed\<close> differs in one place: a
  promotion that is \<open>null\<close> counts as none. \<open>validation_errors\<close> are the errors
  \<open>validateMovePayload\<close> can throw.
\<close>

definition validation_errors :: "error set" where
  "validation_errors =
     {Error ''Move coordinates must be integers'',
      Error ''Squares must be between 0 and 63'',
      Error ''From and to squares must differ'',
      Error ''Promotion piece must be Q, R, B, or N'',
      Error ''isCastle must be boolean'',
      Error ''isEnPassant must be boolean'',
      Error ''isDoublePawnPush must be boolean''}"

definition present :: "jsval \<Rightarrow> bool" where
  "present v = (v \<noteq> JUndefined)"

definition malformed_as_claimed :: "jsval \<Rightarrow> bool" where
  "malformed_as_claimed mv =
     (let from = prop_of mv ''from''; to = prop_of mv ''to'' in
      (\<not> isInteger from \<or> \<not> isInteger to) \<or>
      (int_of from < 0 \<or> int_of from > 63 \<or> int_of to < 0 \<or> int_of to > 63) \<or>
      from = to \<or>
      (present (prop_of mv ''promo'') \<and>
       prop_of mv ''promo'' \<notin> {JStr ''Q'', JStr ''R'', JStr ''B'', JStr ''N''}) \<or>
      (present (prop_of mv ''isCastle'') \<and> typeof (prop_of mv ''isCastle'') \<noteq> TBoolean) \<or>
      (present (prop_of mv ''isEnPassant'') \<and> typeof (prop_of mv ''isEnPassant'') \<noteq> TBoolean) \<or>
      (present (prop_of mv ''isDoublePawnPush'') \<and>
       typeof (prop_of mv ''isDoublePawnPush'') \<noteq> TBoolean))"

definition structurally_malformed :: "jsval \<Rightarrow> bool" where
  "structurally_malformed mv =
     (let from = prop_of mv ''from''; to = prop_of mv ''to'' in
      (\<not> isInteger from \<or> \<not> isInteger to) \<or>
      (int_of from < 0 \<or> int_of from > 63 \<or> int_of to < 0 \<or> int_of to > 63) \<or>
      from = to \<or>
      (present (prop_of mv ''promo'') \<and> prop_of mv ''promo'' \<noteq> JNull \<and>
       prop_of mv ''promo'' \<notin> {JStr ''Q'', JStr ''R'', JStr ''B'', JStr ''N''}) \<or>
      (present (prop_of mv ''isCastle'') \<and> typeof (prop_of mv ''isCastle'') \<noteq> TBoolean) \<or>
      (present (prop_of mv ''isEnPassant'') \<and> typeof (prop_of mv ''isEnPassant'') \<noteq> TBoolean) \<or>
      (present (prop_of mv ''isDoublePawnPush'') \<and>
       typeof (prop_of mv ''isDoublePawnPush'') \<noteq> TBoolean))"

definition promo_null :: jsval where
  "promo_null = JObj [(''from'', JInt 12), (''to'', JInt 28), (''promo'', JNull)]"

definition same_square :: jsval where
  "same_square = JObj [(''from'', JInt 5), (''to'', JInt 5)]"

definition off_board :: jsval where
  "off_board = JObj [(''from'', JInt 70), (''to'', JInt 5)]"

subsection \<open>Runs of accepted moves\<close>

text \<open>
  \<open>accept_moves\<close> hands a list of \<open>move\<close> events (connection, time, payload) to
  \<open>handleMove\<close> one after the other and gives the final state when every one of them was
  accepted, \<open>None\<close> as soon as one throws.
\<close>

fun accept_moves :: "(string \<times> int \<times> jsval) list \<Rightarrow> world \<Rightarrow> world option" where
  "accept_moves [] w = Some w"
| "accept_moves ((sid, now, p) # ms) w =
     (case handleMove sid now p w of
        (None, w') \<Rightarrow> accept_moves ms w'
      | (Some e, w') \<Rightarrow> None)"

definition e7e5 :: jsval where
  "e7e5 = JObj [(''from'', JInt 52), (''to'', JInt 36)]"

definition g1f3 :: jsval where
  "g1f3 = JObj [(''from'', JInt 6), (''to'', JInt 21), (''isCastle'', JBool False)]"

section \<open>Properties\<close>

subsection \<open>Searching and cutting lists\<close>

lemma findIndex_None: "(findIndex P xs = None) = (\<forall>x\<in>set xs. \<not> P x)"
  by (induction xs) (auto split: option.splits)

lemma findIndex_Some:
  "findIndex P xs = Some i \<Longrightarrow> i < length xs \<and> P (xs ! i) \<and> (\<forall>j<i. \<not> P (xs ! j))"
proof (induction xs arbitrary: i)
  case Nil
  then show ?case by simp
next
  case (Cons x xs)
  show ?case
  proof (cases "P x")
    case True
    with Cons.prems show ?thesis by simp
  next
    case False
    with Cons.prems obtain k where k: "findIndex P xs = Some k" "i = Suc k"
      by (auto split: option.splits)
    from Cons.IH[OF k(1)] False k(2) show ?thesis
      by (auto simp: less_Suc_eq_0_disj)
  qed
qed

lemma splice1_length: "i < length xs \<Longrightarrow> length (splice1 i xs) = length xs - 1"
  by (simp add: splice1_def)

lemma splice1_distinct: "distinct (map f xs) \<Longrightarrow> distinct (map f (splice1 i xs))"
proof -
  assume d: "distinct (map f xs)"
  have "map f xs = map f (take i xs) @ map f (drop i xs)"
    by (metis append_take_drop_id map_append)
  with d have d2: "distinct (map f (take i xs) @ map f (drop i xs))" by simp
  have "set (drop (Suc i) xs) \<subseteq> set (drop i xs)"
    by (simp add: set_drop_subset_set_drop)
  moreover have "distinct (map f (drop (Suc i) xs))"
    using d by (simp add: distinct_drop flip: drop_map)
  ultimately show ?thesis using d2
    by (auto simp: splice1_def)
qed

subsection \<open>The invariant of the registry\<close>

lemma store_ok_init: "store_ok init_world"
  by (simp add: store_ok_def init_world_def)

lemma store_ok_post: "store_ok w \<Longrightarrow> store_ok (post_room c now w)"
  by (auto simp: store_ok_def post_room_def room_ok_def createRoom_def)

lemma store_ok_sweep: "store_ok w \<Longrightarrow> store_ok (sweep now w)"
  by (auto simp: store_ok_def sweep_def split: option.splits if_splits)

lemma store_ok_joined: "store_ok (w\<lparr>joined := j\<rparr>) = store_ok w"
  by (simp add: store_ok_def)

lemma store_ok_outbox: "store_ok (w\<lparr>outbox := j\<rparr>) = store_ok w"
  by (simp add: store_ok_def)

lemma store_okD: "store_ok w \<Longrightarrow> rooms w c = Some r \<Longrightarrow> room_ok c r"
  by (simp add: store_ok_def)

lemma room_ok_leave:
  assumes ok: "room_ok c r" and i: "findIndex P (players r) = Some i"
  shows "room_ok c
           (if length (splice1 i (players r)) = 0
            then r\<lparr>players := splice1 i (players r), lastActive := now,
                   sideToMove := WHITE, state := initialState\<rparr>
            else r\<lparr>players := splice1 i (players r), lastActive := now\<rparr>)"
proof -
  from findIndex_Some[OF i] have "i < length (players r)" by simp
  then have "length (splice1 i (players r)) \<le> 2"
    using ok by (auto simp: splice1_length room_ok_def)
  moreover have "distinct (map uid (splice1 i (players r)))"
    using ok by (simp add: splice1_distinct room_ok_def)
  ultimately show ?thesis using ok by (simp add: room_ok_def)
qed

lemma room_ok_reset:
  "room_ok c r \<Longrightarrow>
   room_ok c (if length (players r) = 0 then r\<lparr>sideToMove := WHITE, state := initialState\<rparr> else r)"
  by (simp add: room_ok_def)

lemma store_ok_update:
  "store_ok w \<Longrightarrow> room_ok c r \<Longrightarrow> rooms w' = (rooms w)(c \<mapsto> r) \<Longrightarrow> store_ok w'"
  by (simp add: store_ok_def)

lemma store_ok_disconnect: "store_ok w \<Longrightarrow> store_ok (handleDisconnect sid now w)"
proof -
  assume ok: "store_ok w"
  show ?thesis
  proof (cases "membership w sid")
    case None
    then show ?thesis using ok by (simp add: handleDisconnect_def)
  next
    case (Some m)
    obtain mc mu where m: "m = (mc, mu)" by (cases m)
    show ?thesis
    proof (cases "rooms w mc")
      case None
      then show ?thesis using ok Some m by (simp add: handleDisconnect_def)
    next
      case (Some r)
      note r = Some
      from store_okD[OF ok r] have rok: "room_ok mc r" .
      show ?thesis
      proof (cases "findIndex (\<lambda>p. uid p = mu) (players r)")
        case None
        then show ?thesis
          using \<open>membership w sid = Some m\<close> m r room_ok_reset[OF rok]
          by (auto simp: handleDisconnect_def intro!: store_ok_update[OF ok])
      next
        case (Some i)
        then show ?thesis
          using \<open>membership w sid = Some m\<close> m r room_ok_leave[OF rok Some, of now]
          by (auto simp: handleDisconnect_def Let_def intro!: store_ok_update[OF ok] split: if_splits)
      qed
    qed
  qed
qed

subsection \<open>The outcomes of a join\<close>

lemma string_payload: "(truthy v \<and> typeof v = TString) = (\<exists>s. v = JStr s \<and> s \<noteq> [])"
  by (cases v) auto

lemma prop_of_null: "prop_of p k = JStr s \<Longrightarrow> p \<noteq> JNull \<and> p \<noteq> JUndefined"
  by (cases p) auto

lemma handleJoinRoom_unfold:
  assumes "prop_of p ''code'' = JStr c" "c \<noteq> []" "prop_of p ''uid'' = JStr u" "u \<noteq> []"
    and "rooms w c = Some r"
  shows "handleJoinRoom sid now p w =
     (if findIndex (\<lambda>p. uid p = u) (players r) = None \<and> length (players r) \<ge> 2
      then (Some (Error ''Room is full''), w)
      else
        (let w1 = leave_other sid now c w;
             r' = r\<lparr>players := fst (seat sid u r), lastActive := now\<rparr>
         in (None,
             w1\<lparr>rooms := (rooms w1)(c \<mapsto> r'),
                 membership := (membership w1)(sid \<mapsto> (c, u)),
                 joined := insert (sid, c) (joined w1),
                 outbox := outbox w1
                   @ [(Direct sid, RoomJoined (code r) (toLowerCase (color (snd (seat sid u r)))))]
                   @ (if length (fst (seat sid u r)) = 2 \<and> findIndex (\<lambda>p. uid p = u) (players r) = None
                      then (case find (\<lambda>p. uid p \<noteq> u) (fst (seat sid u r)) of
                              Some other \<Rightarrow> [(Channel (socketId other), OpponentJoined)]
                            | None \<Rightarrow> [])
                      else [])
                   @ [emitRoomState r']\<rparr>)))"
proof -
  from prop_of_null[OF assms(1)] have p: "p \<noteq> JNull" "p \<noteq> JUndefined" by simp_all
  show ?thesis
  proof (cases "findIndex (\<lambda>p. uid p = u) (players r)")
    case None
    then show ?thesis
      unfolding handleJoinRoom_def leave_other_def[symmetric]
      using assms p
      by (simp add: Let_def seat_def)
  next
    case (Some i)
    then show ?thesis
      unfolding handleJoinRoom_def leave_other_def[symmetric]
      using assms p
      by (simp add: Let_def seat_def)
  qed
qed

lemma handleJoinRoom_null:
  "handleJoinRoom sid now JNull w = (Some TypeError, w)"
  by (simp add: handleJoinRoom_def)

lemma handleJoinRoom_nocode:
  "p \<noteq> JNull \<Longrightarrow> \<not> (truthy (prop_of p ''code'') \<and> typeof (prop_of p ''code'') = TString) \<Longrightarrow>
   handleJoinRoom sid now p w = (Some (Error ''Room code is required''), w)"
  by (auto simp: handleJoinRoom_def Let_def)

lemma handleJoinRoom_nouid:
  "p \<noteq> JNull \<Longrightarrow> truthy (prop_of p ''code'') \<and> typeof (prop_of p ''code'') = TString \<Longrightarrow>
   \<not> (truthy (prop_of p ''uid'') \<and> typeof (prop_of p ''uid'') = TString) \<Longrightarrow>
   handleJoinRoom sid now p w = (Some (Error ''User id is required''), w)"
  by (auto simp: handleJoinRoom_def Let_def)

lemma handleJoinRoom_noroom:
  "prop_of p ''code'' = JStr c \<Longrightarrow> c \<noteq> [] \<Longrightarrow> prop_of p ''uid'' = JStr u \<Longrightarrow> u \<noteq> [] \<Longrightarrow>
   rooms w c = None \<Longrightarrow>
   handleJoinRoom sid now p w = (Some (Error ''Room not found''), w)"
  using prop_of_null[of p "''code''" c]
  by (simp add: handleJoinRoom_def Let_def)

text \<open>Every outcome of a join, by the first check that decides it.\<close>

lemma handleJoinRoom_outcome:
  obtains
    (thrown) e where "handleJoinRoom sid now p w = (Some e, w)"
  | (entered) c u r where "prop_of p ''code'' = JStr c" "c \<noteq> []" "prop_of p ''uid'' = JStr u"
      "u \<noteq> []" "rooms w c = Some r"
      "\<not> (findIndex (\<lambda>p. uid p = u) (players r) = None \<and> length (players r) \<ge> 2)"
proof (cases "p = JNull")
  case True
  then show ?thesis using thrown handleJoinRoom_null by blast
next
  case False
  note nn = False
  show ?thesis
  proof (cases "truthy (prop_of p ''code'') \<and> typeof (prop_of p ''code'') = TString")
    case False
    from handleJoinRoom_nocode[OF nn False] show ?thesis using thrown by blast
  next
    case True
    note cd = True
    then obtain c where c: "prop_of p ''code'' = JStr c" "c \<noteq> []"
      unfolding string_payload by blast
    show ?thesis
    proof (cases "truthy (prop_of p ''uid'') \<and> typeof (prop_of p ''uid'') = TString")
      case False
      from handleJoinRoom_nouid[OF nn cd False] show ?thesis using thrown by blast
    next
      case True
      then obtain u where u: "prop_of p ''uid'' = JStr u" "u \<noteq> []"
        unfolding string_payload by blast
      show ?thesis
      proof (cases "rooms w c")
        case None
        from handleJoinRoom_noroom[OF c u None] show ?thesis using thrown by blast
      next
        case (Some r)
        show ?thesis
        proof (cases "findIndex (\<lambda>p. uid p = u) (players r) = None \<and> length (players r) \<ge> 2")
          case True
          then have "handleJoinRoom sid now p w = (Some (Error ''Room is full''), w)"
            unfolding handleJoinRoom_unfold[OF c u Some] by simp
          then show ?thesis using thrown by blast
        next
          case False
          then show ?thesis using entered[OF c u Some] by blast
        qed
      qed
    qed
  qed
qed

lemma handleJoinRoom_error:
  assumes "handleJoinRoom sid now p w = (Some e, w')"
  shows "w' = w"
proof (cases rule: handleJoinRoom_outcome[of sid now p w])
  case (thrown e')
  with assms show ?thesis by simp
next
  case (entered c u r)
  from assms show ?thesis
    unfolding handleJoinRoom_unfold[OF entered(1-5)]
    using entered(6) by (simp add: Let_def split: if_splits)
qed

text \<open>
  The implicit leave of another room does not touch the room being joined: the entry read
  before it is the entry the player is added to.
\<close>

lemma store_ok_leave_other: "store_ok w \<Longrightarrow> store_ok (leave_other sid now c w)"
  by (auto simp: leave_other_def store_ok_joined intro!: store_ok_disconnect split: option.splits)

lemma handleDisconnect_other_room:
  "membership w sid = Some (pc, pu) \<Longrightarrow> pc \<noteq> c \<Longrightarrow> rooms (handleDisconnect sid now w) c = rooms w c"
  by (simp add: handleDisconnect_def Let_def case_prod_beta split: option.splits)

lemma leave_other_room: "rooms (leave_other sid now c w) c = rooms w c"
  by (auto simp: leave_other_def handleDisconnect_other_room split: option.splits)

lemma map_uid_update:
  "i < length ps \<Longrightarrow> map uid (ps[i := (ps ! i)\<lparr>socketId := s\<rparr>]) = map uid ps"
  by (simp add: list_eq_iff_nth_eq nth_list_update)

lemma map_color_update:
  "i < length ps \<Longrightarrow> map color (ps[i := (ps ! i)\<lparr>socketId := s\<rparr>]) = map color ps"
  by (simp add: list_eq_iff_nth_eq nth_list_update)

lemma room_ok_seat:
  assumes ok: "room_ok c r"
    and free: "\<not> (findIndex (\<lambda>p. uid p = u) (players r) = None \<and> length (players r) \<ge> 2)"
  shows "room_ok c (r\<lparr>players := fst (seat sid u r), lastActive := now\<rparr>)"
proof (cases "findIndex (\<lambda>p. uid p = u) (players r)")
  case None
  then have "u \<notin> uid ` set (players r)" by (auto simp: findIndex_None)
  with None free ok show ?thesis by (auto simp: seat_def room_ok_def)
next
  case (Some i)
  from findIndex_Some[OF Some] have i: "i < length (players r)" by simp
  then have "players r \<noteq> []" by auto
  with Some ok i show ?thesis by (simp add: seat_def room_ok_def map_uid_update)
qed

lemma store_ok_join: "store_ok w \<Longrightarrow> store_ok (snd (handleJoinRoom sid now p w))"
proof -
  assume ok: "store_ok w"
  show ?thesis
  proof (cases rule: handleJoinRoom_outcome[of sid now p w])
    case (thrown e)
    with ok show ?thesis by simp
  next
    case (entered c u r)
    have ok1: "store_ok (leave_other sid now c w)" using ok by (rule store_ok_leave_other)
    have rk: "room_ok c (r\<lparr>players := fst (seat sid u r), lastActive := now\<rparr>)"
      using store_okD[OF ok entered(5)] entered(6) by (rule room_ok_seat)
    show ?thesis
      unfolding handleJoinRoom_unfold[OF entered(1-5)]
      using entered(6) by (auto simp: Let_def intro!: store_ok_update[OF ok1 rk])
  qed
qed

lemma store_ok_on_join: "store_ok w \<Longrightarrow> store_ok (on_join_room sid now p w)"
  using store_ok_join[of w sid now p]
  by (cases "handleJoinRoom sid now p w")
     (auto simp: on_join_room_def store_ok_outbox split: option.splits)

subsection \<open>The outcomes of a move\<close>

lemma handleMove_nomember:
  "membership w sid = None \<Longrightarrow>
   handleMove sid now p w = (Some (Error ''You are not joined to a room''), w)"
  by (simp add: handleMove_def)

lemma handleMove_null:
  "membership w sid = Some (mc, mu) \<Longrightarrow> handleMove sid now JNull w = (Some TypeError, w)"
  by (simp add: handleMove_def)

lemma handleMove_nocode:
  "membership w sid = Some (mc, mu) \<Longrightarrow> p \<noteq> JNull \<Longrightarrow>
   \<not> (truthy (prop_of p ''code'') \<and> typeof (prop_of p ''code'') = TString) \<Longrightarrow>
   handleMove sid now p w = (Some (Error ''Room code is required''), w)"
  by (auto simp: handleMove_def Let_def)

lemma handleMove_mismatch:
  "membership w sid = Some (mc, mu) \<Longrightarrow> prop_of p ''code'' = JStr c \<Longrightarrow> c \<noteq> [] \<Longrightarrow> mc \<noteq> c \<Longrightarrow>
   handleMove sid now p w = (Some (Error ''You are not part of this room''), w)"
  using prop_of_null[of p "''code''" c]
  by (simp add: handleMove_def Let_def)

lemma handleMove_nomove:
  "membership w sid = Some (mc, mu) \<Longrightarrow> prop_of p ''code'' = JStr mc \<Longrightarrow> mc \<noteq> [] \<Longrightarrow>
   \<not> (truthy (prop_of p ''move'') \<and> typeof (prop_of p ''move'') = TObject) \<Longrightarrow>
   handleMove sid now p w = (Some (Error ''Move payload is required''), w)"
  using prop_of_null[of p "''code''" mc]
  by (auto simp: handleMove_def Let_def)

lemma handleMove_unfold:
  assumes "membership w sid = Some (mc, mu)" "prop_of p ''code'' = JStr mc" "mc \<noteq> []"
    and "truthy (prop_of p ''move'')" "typeof (prop_of p ''move'') = TObject"
  shows "handleMove sid now p w =
     (case rooms w mc of
        None \<Rightarrow> (Some (Error ''Room not found''), w)
      | Some r \<Rightarrow>
          (case find (\<lambda>p. uid p = mu) (players r) of
             None \<Rightarrow> (Some (Error ''Player not found in room''), w)
           | Some pl \<Rightarrow>
               if color pl \<noteq> sideToMove r
               then (Some (Error ''Not your turn''), w)
               else
                 (case validateMovePayload (prop_of p ''move'') of
                    Some e \<Rightarrow> (Some e, w)
                  | None \<Rightarrow>
                      (None,
                       w\<lparr>rooms := (rooms w)(mc \<mapsto> (applyMoveServer r (prop_of p ''move''))\<lparr>lastActive := now\<rparr>),
                          outbox := outbox w @
                            [(Channel mc,
                              MoveApplied (prop_of p ''move'')
                                (sideToMove (applyMoveServer r (prop_of p ''move'')))
                                (state (applyMoveServer r (prop_of p ''move''))))]\<rparr>))))"
  using assms prop_of_null[of p "''code''" mc]
  by (simp add: handleMove_def Let_def validateLegalMove_def cong: option.case_cong if_cong)

lemma handleMove_outcome:
  obtains
    (thrown) e where "handleMove sid now p w = (Some e, w)"
  | (applied) mc mu r pl where "membership w sid = Some (mc, mu)"
      "prop_of p ''code'' = JStr mc" "mc \<noteq> []"
      "truthy (prop_of p ''move'')" "typeof (prop_of p ''move'') = TObject"
      "rooms w mc = Some r" "find (\<lambda>p. uid p = mu) (players r) = Some pl"
      "color pl = sideToMove r" "validateMovePayload (prop_of p ''move'') = None"
      "handleMove sid now p w =
         (None,
          w\<lparr>rooms := (rooms w)(mc \<mapsto> (applyMoveServer r (prop_of p ''move''))\<lparr>lastActive := now\<rparr>),
             outbox := outbox w @
               [(Channel mc,
                 MoveApplied (prop_of p ''move'')
                   (sideToMove (applyMoveServer r (prop_of p ''move'')))
                   (state (applyMoveServer r (prop_of p ''move''))))]\<rparr>)"
proof (cases "membership w sid")
  case None
  from handleMove_nomember[OF None] show ?thesis using thrown by blast
next
  case (Some m)
  obtain mc mu where m: "membership w sid = Some (mc, mu)" using Some by (cases m) simp
  show ?thesis
  proof (cases "p = JNull")
    case True
    with handleMove_null[OF m] show ?thesis using thrown by blast
  next
    case False
    note nn = False
    show ?thesis
    proof (cases "truthy (prop_of p ''code'') \<and> typeof (prop_of p ''code'') = TString")
      case False
      from handleMove_nocode[OF m nn False] show ?thesis using thrown by blast
    next
      case True
      then obtain c where c: "prop_of p ''code'' = JStr c" "c \<noteq> []"
        unfolding string_payload by blast
      show ?thesis
      proof (cases "mc = c")
        case False
        from handleMove_mismatch[OF m c False] show ?thesis using thrown by blast
      next
        case True
        note c = c[folded True]
        show ?thesis
        proof (cases "truthy (prop_of p ''move'') \<and> typeof (prop_of p ''move'') = TObject")
          case False
          from handleMove_nomove[OF m c False] show ?thesis using thrown by blast
        next
          case True
          then have mv: "truthy (prop_of p ''move'')" "typeof (prop_of p ''move'') = TObject"
            by simp_all
          note unf = handleMove_unfold[OF m c mv, of now]
          show ?thesis
          proof (cases "rooms w mc")
            case None
            with unf show ?thesis using thrown by simp
          next
            case (Some r)
            note r = Some
            show ?thesis
            proof (cases "find (\<lambda>p. uid p = mu) (players r)")
              case None
              with unf r show ?thesis using thrown by simp
            next
              case (Some pl)
              note pl = Some
              show ?thesis
              proof (cases "color pl = sideToMove r")
                case False
                with unf r pl show ?thesis using thrown by simp
              next
                case True
                note turn = True
                show ?thesis
                proof (cases "validateMovePayload (prop_of p ''move'')")
                  case (Some e)
                  with unf r pl turn show ?thesis using thrown by simp
                next
                  case None
                  with unf r pl turn have
                    "handleMove sid now p w =
                       (None,
                        w\<lparr>rooms := (rooms w)(mc \<mapsto> (applyMoveServer r (prop_of p ''move''))\<lparr>lastActive := now\<rparr>),
                           outbox := outbox w @
                             [(Channel mc,
                               MoveApplied (prop_of p ''move'')
                                 (sideToMove (applyMoveServer r (prop_of p ''move'')))
                                 (state (applyMoveServer r (prop_of p ''move''))))]\<rparr>)"
                    by simp
                  with applied[OF m c mv r pl turn None] show ?thesis by blast
                qed
              qed
            qed
          qed
        qed
      qed
    qed
  qed
qed

lemma handleMove_error:
  assumes "handleMove sid now p w = (Some e, w')"
  shows "w' = w"
proof (cases rule: handleMove_outcome[of sid now p w])
  case (thrown e')
  with assms show ?thesis by simp
next
  case (applied mc mu r pl)
  with assms show ?thesis by simp
qed

lemma room_ok_move:
  "room_ok c r \<Longrightarrow> players r \<noteq> [] \<Longrightarrow> room_ok c ((applyMoveServer r mv)\<lparr>lastActive := now\<rparr>)"
  by (simp add: room_ok_def applyMoveServer_def)

lemma find_Some_nonempty: "find P xs = Some x \<Longrightarrow> xs \<noteq> []"
  by (cases xs) auto

lemma store_ok_move: "store_ok w \<Longrightarrow> store_ok (snd (handleMove sid now p w))"
proof -
  assume ok: "store_ok w"
  show ?thesis
  proof (cases rule: handleMove_outcome[of sid now p w])
    case (thrown e)
    with ok show ?thesis by simp
  next
    case (applied mc mu r pl)
    have "room_ok mc ((applyMoveServer r (prop_of p ''move''))\<lparr>lastActive := now\<rparr>)"
      using store_okD[OF ok applied(6)] find_Some_nonempty[OF applied(7)] by (rule room_ok_move)
    then show ?thesis
      unfolding applied(10) by (auto intro!: store_ok_update[OF ok])
  qed
qed

lemma store_ok_on_move: "store_ok w \<Longrightarrow> store_ok (on_move sid now p w)"
  using store_ok_move[of w sid now p]
  by (cases "handleMove sid now p w")
     (auto simp: on_move_def store_ok_outbox split: option.splits)

lemma store_ok_on_disconnect: "store_ok w \<Longrightarrow> store_ok (on_disconnect sid now w)"
  by (simp add: on_disconnect_def store_ok_disconnect store_ok_joined)

lemma reachable_store_ok: "reachable w \<Longrightarrow> store_ok w"
  by (induction rule: reachable.induct)
     (simp_all add: store_ok_init store_ok_post store_ok_on_join store_ok_on_move
        store_ok_on_disconnect store_ok_sweep)

subsection \<open>The sample session, step by step\<close>

lemma w_created_eq:
  "w_created = \<lparr>rooms = [''ABCDEF'' \<mapsto> createRoom ''ABCDEF'' 0], membership = Map.empty,
                 joined = {}, outbox = []\<rparr>"
  by (simp add: w_created_def post_room_def init_world_def)

lemma w_one_eq:
  "w_one = \<lparr>rooms = [''ABCDEF'' \<mapsto>
                \<lparr>code = ''ABCDEF'',
                 players = [\<lparr>uid = ''u1'', color = WHITE, socketId = ''s1''\<rparr>],
                 state = initialState, sideToMove = WHITE, lastActive = 1\<rparr>],
             membership = [''s1'' \<mapsto> (''ABCDEF'', ''u1'')],
             joined = {(''s1'', ''ABCDEF'')},
             outbox = [(Direct ''s1'', RoomJoined ''ABCDEF'' ''white''),
                       (Channel ''ABCDEF'', snap0 [(''u1'', WHITE)] WHITE initialState)]\<rparr>"
  unfolding w_one_def w_created_eq
  by (simp add: on_join_room_def handleJoinRoom_def join_payload_def createRoom_def
      emitRoomState_def Let_def snap0_def)

lemma w_two_eq:
  "w_two = \<lparr>rooms = [''ABCDEF'' \<mapsto>
                \<lparr>code = ''ABCDEF'',
                 players = [\<lparr>uid = ''u1'', color = WHITE, socketId = ''s1''\<rparr>,
                            \<lparr>uid = ''u2'', color = BLACK, socketId = ''s2''\<rparr>],
                 state = initialState, sideToMove = WHITE, lastActive = 2\<rparr>],
             membership = [''s1'' \<mapsto> (''ABCDEF'', ''u1''), ''s2'' \<mapsto> (''ABCDEF'', ''u2'')],
             joined = {(''s2'', ''ABCDEF''), (''s1'', ''ABCDEF'')},
             outbox = [(Direct ''s1'', RoomJoined ''ABCDEF'' ''white''),
                       (Channel ''ABCDEF'', snap0 [(''u1'', WHITE)] WHITE initialState),
                       (Direct ''s2'', RoomJoined ''ABCDEF'' ''black''),
                       (Channel ''s1'', OpponentJoined),
                       (Channel ''ABCDEF'', snap0 [(''u1'', WHITE), (''u2'', BLACK)] WHITE initialState)]\<rparr>"
  unfolding w_two_def w_one_eq
  by (simp add: on_join_room_def handleJoinRoom_def join_payload_def
      emitRoomState_def Let_def snap0_def)

lemma w_moved_eq:
  "w_moved = \<lparr>rooms = [''ABCDEF'' \<mapsto>
                \<lparr>code = ''ABCDEF'',
                 players = [\<lparr>uid = ''u1'', color = WHITE, socketId = ''s1''\<rparr>,
                            \<lparr>uid = ''u2'', color = BLACK, socketId = ''s2''\<rparr>],
                 state = \<lparr>lastMove = Some e2e4_stored, boardFEN = ''startpos''\<rparr>,
                 sideToMove = BLACK, lastActive = 3\<rparr>],
             membership = [''s1'' \<mapsto> (''ABCDEF'', ''u1''), ''s2'' \<mapsto> (''ABCDEF'', ''u2'')],
             joined = {(''s2'', ''ABCDEF''), (''s1'', ''ABCDEF'')},
             outbox = outbox w_two @
                      [(Channel ''ABCDEF'',
                        MoveApplied e2e4 BLACK \<lparr>lastMove = Some e2e4_stored, boardFEN = ''startpos''\<rparr>)]\<rparr>"
  unfolding w_moved_def w_two_eq
  by (simp add: on_move_def handleMove_def move_payload_def e2e4_def e2e4_stored_def
      validateMovePayload_def validateLegalMove_def applyMoveServer_def js_or_def
      initialState_def Let_def)

lemma w_vacated_room:
  "rooms w_vacated ''ABCDEF'' =
     Some \<lparr>code = ''ABCDEF'', players = [], state = initialState, sideToMove = WHITE, lastActive = 5\<rparr>"
  unfolding w_vacated_def w_moved_eq
  by (simp add: on_disconnect_def handleDisconnect_def splice1_def Let_def)

lemma w_created_reachable: "reachable w_created"
  unfolding w_created_def by (rule r_post[OF r_init]) (simp add: init_world_def)

lemma w_one_reachable: "reachable w_one"
  unfolding w_one_def by (rule r_join[OF w_created_reachable])

lemma w_two_reachable: "reachable w_two"
  unfolding w_two_def by (rule r_join[OF w_one_reachable])

lemma w_moved_reachable: "reachable w_moved"
  unfolding w_moved_def by (rule r_move[OF w_two_reachable])

lemma w_vacated_reachable: "reachable w_vacated"
  unfolding w_vacated_def by (intro r_disconnect w_moved_reachable)

subsection \<open>Lemmas for the claims\<close>

lemma w_two_full:
  "handleJoinRoom ''s3'' 3 (join_payload ''ABCDEF'' ''u3'') w_two = (Some (Error ''Room is full''), w_two)"
  unfolding w_two_eq
  by (simp add: handleJoinRoom_def join_payload_def Let_def)

lemma w_two_not_your_turn:
  "handleMove ''s2'' 3 (move_payload ''ABCDEF'' e2e4) w_two = (Some (Error ''Not your turn''), w_two)"
  unfolding w_two_eq
  by (simp add: handleMove_def move_payload_def e2e4_def Let_def)

lemma validated_move:
  assumes "validateMovePayload mv = None"
  shows "isInteger (prop_of mv ''from'')" "isInteger (prop_of mv ''to'')"
    "0 \<le> int_of (prop_of mv ''from'')" "int_of (prop_of mv ''from'') \<le> 63"
    "0 \<le> int_of (prop_of mv ''to'')" "int_of (prop_of mv ''to'') \<le> 63"
    "int_of (prop_of mv ''from'') \<noteq> int_of (prop_of mv ''to'')"
    "prop_of mv ''promo'' \<in> {JUndefined, JNull, JStr ''Q'', JStr ''R'', JStr ''B'', JStr ''N''}"
    "prop_of mv ''isCastle'' = JUndefined \<or> typeof (prop_of mv ''isCastle'') = TBoolean"
    "prop_of mv ''isEnPassant'' = JUndefined \<or> typeof (prop_of mv ''isEnPassant'') = TBoolean"
    "prop_of mv ''isDoublePawnPush'' = JUndefined \<or> typeof (prop_of mv ''isDoublePawnPush'') = TBoolean"
  using assms
  by (auto simp: validateMovePayload_def Let_def split: if_splits)

lemma js_or_flag:
  "v = JUndefined \<or> typeof v = TBoolean \<Longrightarrow>
   js_or v (JBool False) = (if v = JUndefined then JBool False else v)"
  by (cases v) (auto simp: js_or_def)

lemma js_or_promo:
  "v \<in> {JUndefined, JNull, JStr ''Q'', JStr ''R'', JStr ''B'', JStr ''N''} \<Longrightarrow>
   js_or v JNull = (if v = JUndefined then JNull else v)"
  by (auto simp: js_or_def)

lemma applyMoveServer_validated:
  assumes "validateMovePayload mv = None"
  shows "lastMove (state (applyMoveServer r mv)) =
     Some \<lparr>mv_from = prop_of mv ''from'',
           mv_to = prop_of mv ''to'',
           promo = (if prop_of mv ''promo'' = JUndefined then JNull else prop_of mv ''promo''),
           isCastle = (if prop_of mv ''isCastle'' = JUndefined then JBool False
                       else prop_of mv ''isCastle''),
           isEnPassant = (if prop_of mv ''isEnPassant'' = JUndefined then JBool False
                          else prop_of mv ''isEnPassant''),
           isDoublePawnPush = (if prop_of mv ''isDoublePawnPush'' = JUndefined then JBool False
                               else prop_of mv ''isDoublePawnPush'')\<rparr>"
  unfolding applyMoveServer_def
  using js_or_promo[OF validated_move(8)[OF assms]]
    js_or_flag[OF validated_move(9)[OF assms]]
    js_or_flag[OF validated_move(10)[OF assms]]
    js_or_flag[OF validated_move(11)[OF assms]]
  by simp

lemma w_two_promote:
  "handleMove ''s1'' 3 (move_payload ''ABCDEF'' promote_q) w_two =
     (None, snd (handleMove ''s1'' 3 (move_payload ''ABCDEF'' promote_q) w_two)) \<and>
   lastMove (state (the (rooms (snd (handleMove ''s1'' 3 (move_payload ''ABCDEF'' promote_q) w_two)) ''ABCDEF''))) =
     Some \<lparr>mv_from = JInt 52, mv_to = JInt 60, promo = JStr ''Q'', isCastle = JBool False,
           isEnPassant = JBool False, isDoublePawnPush = JBool False\<rparr>"
  unfolding w_two_eq
  by (simp add: handleMove_def move_payload_def promote_q_def
      validateMovePayload_def validateLegalMove_def applyMoveServer_def js_or_def Let_def)

lemma integer_value: "isInteger v = (\<exists>i. v = JInt i)"
  by (cases v) auto

lemma validate_errors: "validateMovePayload mv = Some e \<Longrightarrow> e \<in> validation_errors"
  by (auto simp: validateMovePayload_def validation_errors_def Let_def split: if_splits)

lemma validate_accepts: "(validateMovePayload mv = None) = (\<not> structurally_malformed mv)"
proof (cases "isInteger (prop_of mv ''from'') \<and> isInteger (prop_of mv ''to'')")
  case False
  then show ?thesis
    by (auto simp: validateMovePayload_def structurally_malformed_def Let_def)
next
  case True
  then obtain i j where ij: "prop_of mv ''from'' = JInt i" "prop_of mv ''to'' = JInt j"
    by (auto simp: integer_value)
  show ?thesis
    unfolding validateMovePayload_def structurally_malformed_def present_def Let_def ij
    by (cases "prop_of mv ''promo''") auto
qed

lemma w_two_same_square:
  "handleMove ''s1'' 3 (move_payload ''ABCDEF'' same_square) w_two =
     (Some (Error ''From and to squares must differ''), w_two)"
  unfolding w_two_eq
  by (simp add: handleMove_def move_payload_def same_square_def validateMovePayload_def Let_def)

lemma w_two_off_board:
  "handleMove ''s1'' 3 (move_payload ''ABCDEF'' off_board) w_two =
     (Some (Error ''Squares must be between 0 and 63''), w_two)"
  unfolding w_two_eq
  by (simp add: handleMove_def move_payload_def off_board_def validateMovePayload_def Let_def)

lemma w_two_promo_null:
  "fst (handleMove ''s1'' 3 (move_payload ''ABCDEF'' promo_null) w_two) = None"
  unfolding w_two_eq
  by (simp add: handleMove_def move_payload_def promo_null_def validateMovePayload_def
      validateLegalMove_def Let_def)

lemma accepted_move_flips:
  assumes "handleMove sid now p w = (None, w')" and "prop_of p ''code'' = JStr c"
    and "rooms w c = Some r"
  shows "\<exists>r'. rooms w' c = Some r' \<and>
           sideToMove r' = (if sideToMove r = WHITE then BLACK else WHITE)"
proof (cases rule: handleMove_outcome[of sid now p w])
  case (thrown e)
  with assms show ?thesis by simp
next
  case (applied mc mu r0 pl)
  from applied(2) assms(2) have "mc = c" by simp
  with applied(6) assms(3) have "r0 = r" by simp
  with assms(1) applied(10) \<open>mc = c\<close> show ?thesis
    by (auto simp: applyMoveServer_def)
qed

lemma w_two_three_moves:
  "\<exists>w'. accept_moves [(''s1'', 3, move_payload ''ABCDEF'' e2e4),
                        (''s2'', 4, move_payload ''ABCDEF'' e7e5),
                        (''s1'', 5, move_payload ''ABCDEF'' g1f3)] w_two = Some w'"
  unfolding w_two_eq
  by (simp add: handleMove_def move_payload_def e2e4_def e7e5_def g1f3_def
      validateMovePayload_def validateLegalMove_def applyMoveServer_def js_or_def Let_def)

lemma handleDisconnect_outbox:
  assumes "store_ok w"
  shows "\<exists>pre. outbox (handleDisconnect sid now w) = outbox w @ pre \<and>
           (\<forall>m \<in> set pre. \<exists>mc mu s. membership w sid = Some (mc, mu) \<and> m = (Channel mc, RoomState s))"
proof (cases "membership w sid")
  case None
  then show ?thesis by (simp add: handleDisconnect_def)
next
  case (Some m)
  obtain mc mu where m: "membership w sid = Some (mc, mu)" using Some by (cases m) simp
  show ?thesis
  proof (cases "rooms w mc")
    case None
    with m show ?thesis by (simp add: handleDisconnect_def)
  next
    case (Some r)
    from store_okD[OF assms Some] have cr: "code r = mc" by (simp add: room_ok_def)
    show ?thesis
    proof (cases "findIndex (\<lambda>p. uid p = mu) (players r)")
      case None
      with m Some show ?thesis by (simp add: handleDisconnect_def)
    next
      case (Some i)
      with m \<open>rooms w mc = Some r\<close> cr show ?thesis
        by (simp add: handleDisconnect_def Let_def emitRoomState_def)
    qed
  qed
qed

lemma leave_other_outbox:
  assumes "store_ok w"
  shows "\<exists>pre. outbox (leave_other sid now c w) = outbox w @ pre \<and>
           (\<forall>m \<in> set pre. \<exists>ch s. m = (Channel ch, RoomState s) \<and> ch \<noteq> c)"
proof (cases "membership w sid")
  case None
  then show ?thesis by (simp add: leave_other_def)
next
  case (Some m)
  obtain pc pu where m: "membership w sid = Some (pc, pu)" using Some by (cases m) simp
  show ?thesis
  proof (cases "pc = c")
    case True
    with m show ?thesis by (simp add: leave_other_def)
  next
    case False
    let ?w = "w\<lparr>joined := joined w - {(sid, pc)}\<rparr>"
    have "store_ok ?w" using assms by (simp add: store_ok_joined)
    from handleDisconnect_outbox[OF this, of sid now] obtain pre where
      pre: "outbox (handleDisconnect sid now ?w) = outbox w @ pre"
      "\<forall>m \<in> set pre. \<exists>mc mu s. membership ?w sid = Some (mc, mu) \<and> m = (Channel mc, RoomState s)"
      by auto
    from pre(2) m False have "\<forall>m \<in> set pre. \<exists>ch s. m = (Channel ch, RoomState s) \<and> ch \<noteq> c"
      by fastforce
    with pre(1) m False show ?thesis by (simp add: leave_other_def)
  qed
qed

lemma find_append_new:
  "\<forall>x \<in> set xs. \<not> P x \<Longrightarrow> P y \<Longrightarrow> find P (xs @ [y]) = Some y"
  by (induction xs) auto

lemma find_updated:
  "findIndex P xs = Some i \<Longrightarrow> P y \<Longrightarrow> find P (xs[i := y]) = Some y"
proof (induction xs arbitrary: i)
  case Nil
  then show ?case by simp
next
  case (Cons x xs)
  then show ?case by (cases i) (auto split: if_splits option.splits)
qed

lemma toLowerCase_values: "toLowerCase col \<in> {''white'', ''black''}"
  by (cases col) simp_all

lemma w_one_join_u2:
  "handleJoinRoom ''s2'' 2 (join_payload ''ABCDEF'' ''u2'') w_one = (None, w_two)"
  unfolding w_two_eq unfolding w_one_eq
  by (simp add: handleJoinRoom_def join_payload_def emitRoomState_def Let_def snap0_def)

lemma w_two_rejoin_u1:
  "\<exists>w'. handleJoinRoom ''s3'' 3 (join_payload ''ABCDEF'' ''u1'') w_two = (None, w') \<and>
     outbox w' = outbox w_two @
       [(Direct ''s3'', RoomJoined ''ABCDEF'' ''white''),
        (Channel ''ABCDEF'', snap0 [(''u1'', WHITE), (''u2'', BLACK)] WHITE initialState)]"
  unfolding w_two_eq
  by (simp add: handleJoinRoom_def join_payload_def emitRoomState_def Let_def snap0_def)

lemma findIndex_map: "findIndex (\<lambda>p. f p = u) ps = findIndex (\<lambda>x. x = u) (map f ps)"
  by (induction ps) auto

lemma findIndex_reseated:
  "i < length ps \<Longrightarrow>
   findIndex (\<lambda>p. uid p = u) (ps[i := (ps ! i)\<lparr>socketId := s\<rparr>]) = findIndex (\<lambda>p. uid p = u) ps"
  by (simp add: findIndex_map[where f = uid] map_uid_update)

lemma splice1_removes:
  assumes "distinct (map f ps)" and "findIndex (\<lambda>p. f p = u) ps = Some i"
  shows "u \<notin> f ` set (splice1 i ps)"
proof -
  from findIndex_Some[OF assms(2)] have i: "i < length ps" "f (ps ! i) = u" by simp_all
  have ps: "ps = take i ps @ (ps ! i) # drop (Suc i) ps"
    using i(1) by (simp add: id_take_nth_drop)
  have "distinct (map f (take i ps @ (ps ! i) # drop (Suc i) ps))"
    using assms(1) ps by simp
  then have "f (ps ! i) \<notin> f ` set (take i ps)" "f (ps ! i) \<notin> f ` set (drop (Suc i) ps)"
    by auto
  then show ?thesis using i(2) by (auto simp: splice1_def)
qed

lemma handleDisconnect_found:
  assumes "membership w sid = Some (c, u)" and "rooms w c = Some r"
    and "findIndex (\<lambda>p. uid p = u) (players r) = Some i"
  shows "\<exists>r'. rooms (handleDisconnect sid now w) c = Some r' \<and>
           players r' = splice1 i (players r) \<and>
           membership (handleDisconnect sid now w) = (membership w)(sid := None)"
  using assms by (simp add: handleDisconnect_def Let_def)

lemma handleDisconnect_membership:
  "s \<noteq> sid \<Longrightarrow> membership (handleDisconnect sid now w) s = membership w s"
  by (simp add: handleDisconnect_def Let_def case_prod_beta split: option.splits)

lemma leave_other_membership:
  "s \<noteq> sid \<Longrightarrow> membership (leave_other sid now c w) s = membership w s"
  by (simp add: leave_other_def handleDisconnect_membership split: option.splits)

lemma w_reconnected_eq:
  "handleJoinRoom ''s3'' 3 (join_payload ''ABCDEF'' ''u1'') w_two = (None, w_reconnected)"
  unfolding w_reconnected_def on_join_room_def w_two_eq
  by (simp add: handleJoinRoom_def join_payload_def Let_def)

lemma w_reconnected_closed:
  "rooms (on_disconnect ''s1'' 4 w_reconnected) ''ABCDEF'' =
     Some \<lparr>code = ''ABCDEF'', players = [\<lparr>uid = ''u2'', color = BLACK, socketId = ''s2''\<rparr>],
           state = initialState, sideToMove = WHITE, lastActive = 4\<rparr> \<and>
   rooms w_reconnected ''ABCDEF'' =
     Some \<lparr>code = ''ABCDEF'',
           players = [\<lparr>uid = ''u1'', color = WHITE, socketId = ''s3''\<rparr>,
                      \<lparr>uid = ''u2'', color = BLACK, socketId = ''s2''\<rparr>],
           state = initialState, sideToMove = WHITE, lastActive = 3\<rparr> \<and>
   membership (on_disconnect ''s1'' 4 w_reconnected) ''s3'' = Some (''ABCDEF'', ''u1'')"
  unfolding w_reconnected_def w_two_eq
  by (simp add: on_join_room_def on_disconnect_def handleJoinRoom_def handleDisconnect_def
      join_payload_def splice1_def Let_def)

lemma w_white_left_eq:
  "w_white_left = \<lparr>rooms = [''ABCDEF'' \<mapsto>
                \<lparr>code = ''ABCDEF'',
                 players = [\<lparr>uid = ''u2'', color = BLACK, socketId = ''s2''\<rparr>],
                 state = initialState, sideToMove = WHITE, lastActive = 3\<rparr>],
             membership = [''s2'' \<mapsto> (''ABCDEF'', ''u2'')],
             joined = {(''s2'', ''ABCDEF'')},
             outbox = outbox w_two @
                      [(Channel ''ABCDEF'', snap0 [(''u2'', BLACK)] WHITE initialState)]\<rparr>"
  unfolding w_white_left_def w_two_eq
  by (auto simp: on_disconnect_def handleDisconnect_def splice1_def Let_def emitRoomState_def
      snap0_def fun_eq_iff)

section \<open>The claims\<close>

subsection \<open>C1: the colour of a new player\<close>

text \<open>
  C1 asks that a new player gets the side no current player holds. \<open>handleJoinRoom\<close>
  picks the colour from the number of players: \<open>WHITE\<close> in an empty room, \<open>BLACK\<close>
  otherwise. In the run below the white player's connection closes and a new identity
  joins: the room then holds two \<open>BLACK\<close> players, it is \<open>WHITE\<close> to move, and a move of
  either player is refused with \<open>Not your turn\<close>.
\<close>

theorem two_black_players:
  "reachable w_two_black \<and>
   handleJoinRoom ''s3'' 4 (join_payload ''ABCDEF'' ''u3'') w_white_left = (None, w_two_black) \<and>
   rooms w_two_black ''ABCDEF'' =
     Some \<lparr>code = ''ABCDEF'',
           players = [\<lparr>uid = ''u2'', color = BLACK, socketId = ''s2''\<rparr>,
                      \<lparr>uid = ''u3'', color = BLACK, socketId = ''s3''\<rparr>],
           state = initialState, sideToMove = WHITE, lastActive = 4\<rparr> \<and>
   handleMove ''s2'' 5 (move_payload ''ABCDEF'' e2e4) w_two_black =
     (Some (Error ''Not your turn''), w_two_black) \<and>
   handleMove ''s3'' 5 (move_payload ''ABCDEF'' e2e4) w_two_black =
     (Some (Error ''Not your turn''), w_two_black)"
proof -
  have "reachable w_two_black"
    unfolding w_two_black_def w_white_left_def
    by (intro r_join r_disconnect w_two_reachable)
  moreover have "handleJoinRoom ''s3'' 4 (join_payload ''ABCDEF'' ''u3'') w_white_left = (None, w_two_black)"
    unfolding w_two_black_def on_join_room_def w_white_left_eq
    by (simp add: handleJoinRoom_def join_payload_def Let_def)
  moreover have "rooms w_two_black ''ABCDEF'' =
     Some \<lparr>code = ''ABCDEF'',
           players = [\<lparr>uid = ''u2'', color = BLACK, socketId = ''s2''\<rparr>,
                      \<lparr>uid = ''u3'', color = BLACK, socketId = ''s3''\<rparr>],
           state = initialState, sideToMove = WHITE, lastActive = 4\<rparr>"
    unfolding w_two_black_def on_join_room_def w_white_left_eq
    by (simp add: handleJoinRoom_def join_payload_def Let_def)
  moreover have "handleMove ''s2'' 5 (move_payload ''ABCDEF'' e2e4) w_two_black =
     (Some (Error ''Not your turn''), w_two_black)"
    "handleMove ''s3'' 5 (move_payload ''ABCDEF'' e2e4) w_two_black =
     (Some (Error ''Not your turn''), w_two_black)"
    unfolding w_two_black_def on_join_room_def w_white_left_eq
    by (simp_all add: handleJoinRoom_def handleMove_def join_payload_def move_payload_def
        e2e4_def Let_def)
  ultimately show ?thesis by simp
qed

theorem two_black_players_witness:
  "map (\<lambda>q. (uid q, color q)) (players (the (rooms w_two_black ''ABCDEF''))) =
     [(''u2'', BLACK), (''u3'', BLACK)] \<and>
   sideToMove (the (rooms w_two_black ''ABCDEF'')) = WHITE"
  using two_black_players by simp

subsection \<open>C2: the side to move alternates\<close>

text \<open>
  C2. After a run of N accepted moves on a room, the room's side to move is the one it
  started with when N is even and the other one when N is odd; starting from \<open>WHITE\<close> that
  is \<open>WHITE\<close> for even N and \<open>BLACK\<close> for odd N. Each accepted move flips it.
\<close>

theorem turn_alternation:
  assumes "rooms w c = Some r"
    and "\<forall>m \<in> set ms. prop_of (snd (snd m)) ''code'' = JStr c"
    and "accept_moves ms w = Some w'"
  shows "\<exists>r'. rooms w' c = Some r' \<and>
           sideToMove r' =
             (if even (length ms) then sideToMove r
              else if sideToMove r = WHITE then BLACK else WHITE)"
  using assms
proof (induction ms arbitrary: w r)
  case Nil
  then show ?case by simp
next
  case (Cons m ms)
  obtain sid now p where m: "m = (sid, now, p)" by (cases m)
  from Cons.prems(3) m obtain w1 where
    w1: "handleMove sid now p w = (None, w1)" and rest: "accept_moves ms w1 = Some w'"
    by (auto split: prod.splits option.splits)
  from Cons.prems(2) m have pc: "prop_of p ''code'' = JStr c" by simp
  from accepted_move_flips[OF w1 pc Cons.prems(1)] obtain r1 where
    r1: "rooms w1 c = Some r1" "sideToMove r1 = (if sideToMove r = WHITE then BLACK else WHITE)"
    by blast
  from Cons.prems(2) have "\<forall>m \<in> set ms. prop_of (snd (snd m)) ''code'' = JStr c" by simp
  from Cons.IH[OF r1(1) this rest] obtain r' where
    r': "rooms w' c = Some r'"
    "sideToMove r' = (if even (length ms) then sideToMove r1
                      else if sideToMove r1 = WHITE then BLACK else WHITE)"
    by blast
  show ?case
    using r' r1(2) by (cases "sideToMove r") auto
qed

theorem turn_alternation_witness:
  "sideToMove (the (rooms w_two ''ABCDEF'')) = WHITE \<and>
   (\<exists>w' r'. accept_moves [(''s1'', 3, move_payload ''ABCDEF'' e2e4),
                           (''s2'', 4, move_payload ''ABCDEF'' e7e5),
                           (''s1'', 5, move_payload ''ABCDEF'' g1f3)] w_two = Some w' \<and>
            rooms w' ''ABCDEF'' = Some r' \<and> sideToMove r' = BLACK)"
proof -
  obtain w' where w': "accept_moves [(''s1'', 3, move_payload ''ABCDEF'' e2e4),
                        (''s2'', 4, move_payload ''ABCDEF'' e7e5),
                        (''s1'', 5, move_payload ''ABCDEF'' g1f3)] w_two = Some w'"
    using w_two_three_moves by blast
  have r: "rooms w_two ''ABCDEF'' = Some (the (rooms w_two ''ABCDEF''))"
    by (simp add: w_two_eq)
  have c: "\<forall>m \<in> set [(''s1'', 3::int, move_payload ''ABCDEF'' e2e4),
                        (''s2'', 4, move_payload ''ABCDEF'' e7e5),
                        (''s1'', 5, move_payload ''ABCDEF'' g1f3)].
             prop_of (snd (snd m)) ''code'' = JStr ''ABCDEF''"
    by (simp add: move_payload_def)
  from turn_alternation[OF r c w'] obtain r' where
    "rooms w' ''ABCDEF'' = Some r'" "sideToMove r' = BLACK"
    by (auto simp: w_two_eq)
  with w' show ?thesis by (auto simp: w_two_eq)
qed

subsection \<open>C3: joining again with a seated identity is a reconnection\<close>

text \<open>
  C3. When the identity of the join is already a player of the room, the join succeeds;
  the room afterwards is the room before with the connection id of that player (the first
  with this identity) replaced by the joining connection, and a new activity time. So the
  number of players, every player's identity and every player's colour are as before, and
  the joining connection is recorded as a member of the room under this identity.
\<close>

theorem rejoin_is_reconnection:
  assumes "prop_of p ''code'' = JStr c" and "c \<noteq> []"
    and "prop_of p ''uid'' = JStr u" and "u \<noteq> []"
    and "rooms w c = Some r" and "u \<in> uid ` set (players r)"
  shows "\<exists>w' r' i. handleJoinRoom sid now p w = (None, w') \<and>
           rooms w' c = Some r' \<and>
           findIndex (\<lambda>p. uid p = u) (players r) = Some i \<and>
           r' = r\<lparr>players := (players r)[i := (players r ! i)\<lparr>socketId := sid\<rparr>],
                  lastActive := now\<rparr> \<and>
           length (players r') = length (players r) \<and>
           map uid (players r') = map uid (players r) \<and>
           map color (players r') = map color (players r) \<and>
           membership w' sid = Some (c, u)"
proof -
  from assms(6) have "findIndex (\<lambda>p. uid p = u) (players r) \<noteq> None"
    by (auto simp: findIndex_None)
  then obtain i where i: "findIndex (\<lambda>p. uid p = u) (players r) = Some i" by blast
  from findIndex_Some[OF i] have il: "i < length (players r)" by simp
  let ?r' = "r\<lparr>players := (players r)[i := (players r ! i)\<lparr>socketId := sid\<rparr>], lastActive := now\<rparr>"
  have s: "fst (seat sid u r) = (players r)[i := (players r ! i)\<lparr>socketId := sid\<rparr>]"
    using i by (simp add: seat_def)
  obtain w' where w': "handleJoinRoom sid now p w = (None, w')"
    "rooms w' c = Some ?r'" "membership w' sid = Some (c, u)"
    unfolding handleJoinRoom_unfold[OF assms(1-5)] using i s by (simp add: Let_def)
  show ?thesis
    using w' i il by (auto simp: map_uid_update map_color_update)
qed

theorem rejoin_is_reconnection_witness:
  "handleJoinRoom ''s3'' 3 (join_payload ''ABCDEF'' ''u1'') w_two =
     (None, snd (handleJoinRoom ''s3'' 3 (join_payload ''ABCDEF'' ''u1'') w_two)) \<and>
   players (the (rooms w_two ''ABCDEF'')) =
     [\<lparr>uid = ''u1'', color = WHITE, socketId = ''s1''\<rparr>,
      \<lparr>uid = ''u2'', color = BLACK, socketId = ''s2''\<rparr>] \<and>
   players (the (rooms (snd (handleJoinRoom ''s3'' 3 (join_payload ''ABCDEF'' ''u1'') w_two)) ''ABCDEF'')) =
     [\<lparr>uid = ''u1'', color = WHITE, socketId = ''s3''\<rparr>,
      \<lparr>uid = ''u2'', color = BLACK, socketId = ''s2''\<rparr>]"
  using rejoin_is_reconnection[of "join_payload ''ABCDEF'' ''u1''" "''ABCDEF''" "''u1''" w_two
      "the (rooms w_two ''ABCDEF'')" "''s3''" 3]
  by (auto simp: join_payload_def w_two_eq)

subsection \<open>C4: a full room refuses a third identity\<close>

text \<open>
  C4. When the room holds two players and the identity of the join is none of theirs,
  \<open>handleJoinRoom\<close> throws \<open>Room is full\<close> with the state untouched: the room still has
  its two players, and the \<open>join_room\<close> listener only adds the error notification to the
  sender. The payload names the room and the identity as non-empty strings (an empty one
  is refused earlier, as a missing code or user id).
\<close>

theorem join_full_room:
  assumes "prop_of p ''code'' = JStr c" and "c \<noteq> []"
    and "prop_of p ''uid'' = JStr u" and "u \<noteq> []"
    and "rooms w c = Some r" and "length (players r) = 2" and "u \<notin> uid ` set (players r)"
  shows "handleJoinRoom sid now p w = (Some (Error ''Room is full''), w) \<and>
         on_join_room sid now p w = w\<lparr>outbox := outbox w @ [(Direct sid, ErrorMsg (Error ''Room is full''))]\<rparr> \<and>
         rooms (on_join_room sid now p w) c = Some r"
proof -
  from assms(7) have "findIndex (\<lambda>p. uid p = u) (players r) = None"
    by (auto simp: findIndex_None)
  with assms(6) have full: "handleJoinRoom sid now p w = (Some (Error ''Room is full''), w)"
    unfolding handleJoinRoom_unfold[OF assms(1-5)] by simp
  then show ?thesis using assms(5) by (simp add: on_join_room_def)
qed

theorem join_full_room_witness:
  "handleJoinRoom ''s3'' 3 (join_payload ''ABCDEF'' ''u3'') w_two = (Some (Error ''Room is full''), w_two) \<and>
   length (players (the (rooms w_two ''ABCDEF''))) = 2 \<and>
   length (players (the (rooms (on_join_room ''s3'' 3 (join_payload ''ABCDEF'' ''u3'') w_two) ''ABCDEF''))) = 2"
  using join_full_room[of "join_payload ''ABCDEF'' ''u3''" "''ABCDEF''" "''u3''" w_two
      "the (rooms w_two ''ABCDEF'')" "''s3''" 3]
  by (simp add: join_payload_def w_two_eq)

subsection \<open>C5: a failed join or move changes nothing\<close>

text \<open>
  C5. Whenever \<open>handleJoinRoom\<close> or \<open>handleMove\<close> throws, whatever the error, the state at
  the throw is the state before the call: every room (players, side to move, game state,
  activity time), every membership and every channel subscription is as it was. The
  listener then sends one notification, the error, to the failing connection alone;
  nothing is sent to a room channel.
\<close>

theorem failed_event_changes_nothing:
  "(handleJoinRoom sid now p w = (Some e, w') \<longrightarrow>
      w' = w \<and>
      rooms (on_join_room sid now p w) = rooms w \<and>
      membership (on_join_room sid now p w) = membership w \<and>
      joined (on_join_room sid now p w) = joined w \<and>
      outbox (on_join_room sid now p w) = outbox w @ [(Direct sid, ErrorMsg e)]) \<and>
   (handleMove sid now p w = (Some e, w') \<longrightarrow>
      w' = w \<and>
      rooms (on_move sid now p w) = rooms w \<and>
      membership (on_move sid now p w) = membership w \<and>
      joined (on_move sid now p w) = joined w \<and>
      outbox (on_move sid now p w) = outbox w @ [(Direct sid, ErrorMsg e)])"
proof (intro conjI impI)
  assume a: "handleJoinRoom sid now p w = (Some e, w')"
  from handleJoinRoom_error[OF a] show "w' = w" .
  with a show "rooms (on_join_room sid now p w) = rooms w"
    "membership (on_join_room sid now p w) = membership w"
    "joined (on_join_room sid now p w) = joined w"
    "outbox (on_join_room sid now p w) = outbox w @ [(Direct sid, ErrorMsg e)]"
    by (simp_all add: on_join_room_def)
next
  assume a: "handleMove sid now p w = (Some e, w')"
  from handleMove_error[OF a] show "w' = w" .
  with a show "rooms (on_move sid now p w) = rooms w"
    "membership (on_move sid now p w) = membership w"
    "joined (on_move sid now p w) = joined w"
    "outbox (on_move sid now p w) = outbox w @ [(Direct sid, ErrorMsg e)]"
    by (simp_all add: on_move_def)
qed

theorem failed_event_changes_nothing_witness:
  "handleJoinRoom ''s3'' 3 (join_payload ''ABCDEF'' ''u3'') w_two = (Some (Error ''Room is full''), w_two) \<and>
   outbox (on_join_room ''s3'' 3 (join_payload ''ABCDEF'' ''u3'') w_two) =
     outbox w_two @ [(Direct ''s3'', ErrorMsg (Error ''Room is full''))] \<and>
   rooms (on_join_room ''s3'' 3 (join_payload ''ABCDEF'' ''u3'') w_two) = rooms w_two \<and>
   handleMove ''s2'' 3 (move_payload ''ABCDEF'' e2e4) w_two = (Some (Error ''Not your turn''), w_two) \<and>
   outbox (on_move ''s2'' 3 (move_payload ''ABCDEF'' e2e4) w_two) =
     outbox w_two @ [(Direct ''s2'', ErrorMsg (Error ''Not your turn''))] \<and>
   rooms (on_move ''s2'' 3 (move_payload ''ABCDEF'' e2e4) w_two) = rooms w_two \<and>
   membership (on_move ''s2'' 3 (move_payload ''ABCDEF'' e2e4) w_two) = membership w_two"
  using failed_event_changes_nothing[of "''s3''" 3 "join_payload ''ABCDEF'' ''u3''" w_two
      "Error ''Room is full''" w_two]
    failed_event_changes_nothing[of "''s2''" 3 "move_payload ''ABCDEF'' e2e4" w_two
      "Error ''Not your turn''" w_two]
    w_two_full w_two_not_your_turn
  by simp

subsection \<open>C6: which moves the structural validation refuses\<close>

text \<open>
  C6, amended. For a move object sent by the player whose turn it is, \<open>handleMove\<close> throws a
  validation error, leaving the state as it was, exactly when the move is malformed:
  \<open>from\<close> or \<open>to\<close> is not an integer, or lies outside 0..63, or the two are equal, or
  \<open>promo\<close> is present, is not \<open>null\<close> and is not one of Q, R, B, N, or one of
  \<open>isCastle\<close>, \<open>isEnPassant\<close>, \<open>isDoublePawnPush\<close> is present and not a boolean. Every other
  move is accepted. As the claim is written, a move with \<open>promo: null\<close> is malformed (the
  promotion is present and is none of the four pieces), but the validation skips a
  \<open>null\<close> promotion and the move is accepted; a flag that is \<open>null\<close> is refused.
\<close>

theorem move_validation:
  assumes "membership w sid = Some (c, u)"
    and "prop_of p ''code'' = JStr c" and "c \<noteq> []"
    and "prop_of p ''move'' = JObj fs"
    and "rooms w c = Some r"
    and "find (\<lambda>p. uid p = u) (players r) = Some pl"
    and "color pl = sideToMove r"
  shows "(structurally_malformed (JObj fs) \<longrightarrow>
            (\<exists>e \<in> validation_errors. handleMove sid now p w = (Some e, w))) \<and>
         (\<not> structurally_malformed (JObj fs) \<longrightarrow> fst (handleMove sid now p w) = None)"
proof -
  have mv: "truthy (prop_of p ''move'')" "typeof (prop_of p ''move'') = TObject"
    using assms(4) by simp_all
  note unf = handleMove_unfold[OF assms(1-3) mv, of now]
  show ?thesis
  proof (cases "validateMovePayload (JObj fs)")
    case None
    then have "\<not> structurally_malformed (JObj fs)" by (simp add: validate_accepts)
    moreover have "fst (handleMove sid now p w) = None"
      unfolding unf using assms(4-7) None by simp
    ultimately show ?thesis by simp
  next
    case (Some e)
    then have "structurally_malformed (JObj fs)"
      using validate_accepts[of "JObj fs"] by simp
    moreover have "handleMove sid now p w = (Some e, w)"
      unfolding unf using assms(4-7) Some by simp
    ultimately show ?thesis using validate_errors[OF Some] by blast
  qed
qed

theorem move_validation_witness:
  "structurally_malformed same_square \<and>
   handleMove ''s1'' 3 (move_payload ''ABCDEF'' same_square) w_two =
     (Some (Error ''From and to squares must differ''), w_two) \<and>
   Error ''From and to squares must differ'' \<in> validation_errors \<and>
   handleMove ''s1'' 3 (move_payload ''ABCDEF'' off_board) w_two =
     (Some (Error ''Squares must be between 0 and 63''), w_two) \<and>
   \<not> structurally_malformed promo_null \<and>
   fst (handleMove ''s1'' 3 (move_payload ''ABCDEF'' promo_null) w_two) = None"
  using move_validation[of w_two "''s1''" "''ABCDEF''" "''u1''"
      "move_payload ''ABCDEF'' same_square" "[(''from'', JInt 5), (''to'', JInt 5)]"
      "the (rooms w_two ''ABCDEF'')" "\<lparr>uid = ''u1'', color = WHITE, socketId = ''s1''\<rparr>" 3]
    move_validation[of w_two "''s1''" "''ABCDEF''" "''u1''"
      "move_payload ''ABCDEF'' promo_null" "[(''from'', JInt 12), (''to'', JInt 28), (''promo'', JNull)]"
      "the (rooms w_two ''ABCDEF'')" "\<lparr>uid = ''u1'', color = WHITE, socketId = ''s1''\<rparr>" 3]
    w_two_same_square w_two_off_board
  by (simp add: w_two_eq move_payload_def same_square_def promo_null_def
      structurally_malformed_def present_def validation_errors_def)

theorem promo_null_counterexample:
  "\<not> ((\<exists>e. fst (handleMove ''s1'' 3 (move_payload ''ABCDEF'' promo_null) w_two) = Some e) =
       malformed_as_claimed promo_null)"
  using w_two_promo_null
  by (simp add: malformed_as_claimed_def promo_null_def present_def)

subsection \<open>C7: the stored last move is the normalised move\<close>

text \<open>
  C7. After an accepted move the room's last move has \<open>from\<close> and \<open>to\<close> as submitted
  (two integers), \<open>promo\<close> as submitted or \<open>null\<close> when the move has none, and each of
  \<open>isCastle\<close>, \<open>isEnPassant\<close> and \<open>isDoublePawnPush\<close> as submitted or \<open>false\<close> when
  the move has none; so all six fields are there: the promotion is \<open>null\<close> or one of the
  four pieces and the three flags are booleans.
\<close>

theorem stored_move_normalised:
  assumes "handleMove sid now p w = (None, w')"
  shows "\<exists>c r' lm. prop_of p ''code'' = JStr c \<and> rooms w' c = Some r' \<and>
           lastMove (state r') = Some lm \<and>
           mv_from lm = prop_of (prop_of p ''move'') ''from'' \<and>
           mv_to lm = prop_of (prop_of p ''move'') ''to'' \<and>
           promo lm = (if prop_of (prop_of p ''move'') ''promo'' = JUndefined then JNull
                       else prop_of (prop_of p ''move'') ''promo'') \<and>
           isCastle lm = (if prop_of (prop_of p ''move'') ''isCastle'' = JUndefined then JBool False
                          else prop_of (prop_of p ''move'') ''isCastle'') \<and>
           isEnPassant lm = (if prop_of (prop_of p ''move'') ''isEnPassant'' = JUndefined
                             then JBool False
                             else prop_of (prop_of p ''move'') ''isEnPassant'') \<and>
           isDoublePawnPush lm = (if prop_of (prop_of p ''move'') ''isDoublePawnPush'' = JUndefined
                                  then JBool False
                                  else prop_of (prop_of p ''move'') ''isDoublePawnPush'') \<and>
           isInteger (mv_from lm) \<and> isInteger (mv_to lm) \<and>
           promo lm \<in> {JNull, JStr ''Q'', JStr ''R'', JStr ''B'', JStr ''N''} \<and>
           typeof (isCastle lm) = TBoolean \<and>
           typeof (isEnPassant lm) = TBoolean \<and>
           typeof (isDoublePawnPush lm) = TBoolean"
proof (cases rule: handleMove_outcome[of sid now p w])
  case (thrown e)
  with assms show ?thesis by simp
next
  case (applied mc mu r pl)
  let ?mv = "prop_of p ''move''"
  let ?r' = "(applyMoveServer r ?mv)\<lparr>lastActive := now\<rparr>"
  from assms applied(10) have w': "rooms w' mc = Some ?r'" by auto
  note v = validated_move[OF applied(9)]
  have lm: "lastMove (state ?r') =
     Some \<lparr>mv_from = prop_of ?mv ''from'',
           mv_to = prop_of ?mv ''to'',
           promo = (if prop_of ?mv ''promo'' = JUndefined then JNull else prop_of ?mv ''promo''),
           isCastle = (if prop_of ?mv ''isCastle'' = JUndefined then JBool False
                       else prop_of ?mv ''isCastle''),
           isEnPassant = (if prop_of ?mv ''isEnPassant'' = JUndefined then JBool False
                          else prop_of ?mv ''isEnPassant''),
           isDoublePawnPush = (if prop_of ?mv ''isDoublePawnPush'' = JUndefined then JBool False
                               else prop_of ?mv ''isDoublePawnPush'')\<rparr>"
    using applyMoveServer_validated[OF applied(9), of r] by simp
  have pr: "(if prop_of ?mv ''promo'' = JUndefined then JNull else prop_of ?mv ''promo'')
      \<in> {JNull, JStr ''Q'', JStr ''R'', JStr ''B'', JStr ''N''}"
    using v(8) by auto
  have fl: "typeof (if prop_of ?mv ''isCastle'' = JUndefined then JBool False
                    else prop_of ?mv ''isCastle'') = TBoolean"
    "typeof (if prop_of ?mv ''isEnPassant'' = JUndefined then JBool False
             else prop_of ?mv ''isEnPassant'') = TBoolean"
    "typeof (if prop_of ?mv ''isDoublePawnPush'' = JUndefined then JBool False
             else prop_of ?mv ''isDoublePawnPush'') = TBoolean"
    using v(9,10,11) by auto
  show ?thesis
    apply (rule exI[of _ mc], rule exI[of _ ?r'], rule exI)
    apply (intro conjI)
                  apply (rule applied(2))
                 apply (rule w')
                apply (rule lm)
    using v(1,2) pr fl by simp_all
qed

theorem stored_move_normalised_witness:
  "handleMove ''s1'' 3 (move_payload ''ABCDEF'' promote_q) w_two =
     (None, snd (handleMove ''s1'' 3 (move_payload ''ABCDEF'' promote_q) w_two)) \<and>
   lastMove (state (the (rooms (snd (handleMove ''s1'' 3 (move_payload ''ABCDEF'' promote_q) w_two)) ''ABCDEF''))) =
     Some \<lparr>mv_from = JInt 52, mv_to = JInt 60, promo = JStr ''Q'', isCastle = JBool False,
           isEnPassant = JBool False, isDoublePawnPush = JBool False\<rparr> \<and>
   lastMove (state (the (rooms w_moved ''ABCDEF''))) =
     Some \<lparr>mv_from = JInt 12, mv_to = JInt 28, promo = JNull, isCastle = JBool False,
           isEnPassant = JBool False, isDoublePawnPush = JBool False\<rparr>"
  using stored_move_normalised[of "''s1''" 3 "move_payload ''ABCDEF'' promote_q" w_two
      "snd (handleMove ''s1'' 3 (move_payload ''ABCDEF'' promote_q) w_two)"]
    w_two_promote
  by (simp add: w_moved_eq e2e4_stored_def)

subsection \<open>C8: the invariant of a registered room\<close>

text \<open>
  C8. Every room of a reachable state holds zero, one or two players, its side to move is
  \<open>WHITE\<close> or \<open>BLACK\<close>, and a room without players has the initial game state, that is
  no last move (\<open>lastMove\<close> is \<open>null\<close>) and the board token \<open>startpos\<close>, and \<open>WHITE\<close> to
  move; in particular a room that a disconnect leaves without players has its game state
  and its side to move reset to these values.
\<close>

theorem room_invariant:
  assumes "reachable w" and "rooms w c = Some r"
  shows "length (players r) \<in> {0, 1, 2} \<and>
         sideToMove r \<in> {WHITE, BLACK} \<and>
         (length (players r) = 0 \<longrightarrow>
            state r = initialState \<and>
            state r = \<lparr>lastMove = None, boardFEN = ''startpos''\<rparr> \<and>
            lastMove (state r) = None \<and> boardFEN (state r) = ''startpos'' \<and>
            sideToMove r = WHITE) \<and>
         (\<forall>sid now r'. rooms (on_disconnect sid now w) c = Some r' \<longrightarrow>
            length (players r') = 0 \<longrightarrow>
            state r' = initialState \<and>
            state r' = \<lparr>lastMove = None, boardFEN = ''startpos''\<rparr> \<and>
            lastMove (state r') = None \<and> boardFEN (state r') = ''startpos'' \<and>
            sideToMove r' = WHITE)"
proof -
  have empty: "state x = initialState \<and>
               state x = \<lparr>lastMove = None, boardFEN = ''startpos''\<rparr> \<and>
               lastMove (state x) = None \<and> boardFEN (state x) = ''startpos'' \<and>
               sideToMove x = WHITE"
    if "room_ok k x" and "length (players x) = 0" for k x
    using that by (simp add: room_ok_def initialState_def)
  have leave: "\<forall>sid now r'. rooms (on_disconnect sid now w) c = Some r' \<longrightarrow>
            length (players r') = 0 \<longrightarrow>
            state r' = initialState \<and>
            state r' = \<lparr>lastMove = None, boardFEN = ''startpos''\<rparr> \<and>
            lastMove (state r') = None \<and> boardFEN (state r') = ''startpos'' \<and>
            sideToMove r' = WHITE"
  proof (intro allI impI)
    fix sid now r'
    assume r': "rooms (on_disconnect sid now w) c = Some r'" and e: "length (players r') = 0"
    have "reachable (on_disconnect sid now w)" using assms(1) by (rule r_disconnect)
    from store_okD[OF reachable_store_ok[OF this] r'] e
    show "state r' = initialState \<and>
          state r' = \<lparr>lastMove = None, boardFEN = ''startpos''\<rparr> \<and>
          lastMove (state r') = None \<and> boardFEN (state r') = ''startpos'' \<and>
          sideToMove r' = WHITE"
      by (rule empty)
  qed
  from store_okD[OF reachable_store_ok[OF assms(1)] assms(2)] have ok: "room_ok c r" .
  then have "length (players r) \<le> 2" by (simp add: room_ok_def)
  then have "length (players r) = 0 \<or> length (players r) = 1 \<or> length (players r) = 2"
    by arith
  then have "length (players r) \<in> {0, 1, 2}" by simp
  moreover have "sideToMove r \<in> {WHITE, BLACK}" by (cases "sideToMove r") simp_all
  moreover have "length (players r) = 0 \<longrightarrow>
            state r = initialState \<and>
            state r = \<lparr>lastMove = None, boardFEN = ''startpos''\<rparr> \<and>
            lastMove (state r) = None \<and> boardFEN (state r) = ''startpos'' \<and>
            sideToMove r = WHITE"
    using empty[OF ok] by blast
  ultimately show ?thesis using leave by blast
qed

theorem room_invariant_witness:
  "reachable w_vacated \<and>
   lastMove (state (the (rooms w_moved ''ABCDEF''))) =
     Some \<lparr>mv_from = JInt 12, mv_to = JInt 28, promo = JNull, isCastle = JBool False,
           isEnPassant = JBool False, isDoublePawnPush = JBool False\<rparr> \<and>
   sideToMove (the (rooms w_moved ''ABCDEF'')) = BLACK \<and>
   rooms w_vacated ''ABCDEF'' =
     Some \<lparr>code = ''ABCDEF'', players = [],
           state = \<lparr>lastMove = None, boardFEN = ''startpos''\<rparr>,
           sideToMove = WHITE, lastActive = 5\<rparr> \<and>
   length (players (the (rooms w_vacated ''ABCDEF''))) = 0 \<and>
   lastMove (state (the (rooms w_vacated ''ABCDEF''))) = None \<and>
   boardFEN (state (the (rooms w_vacated ''ABCDEF''))) = ''startpos'' \<and>
   sideToMove (the (rooms w_vacated ''ABCDEF'')) = WHITE"
  using room_invariant[OF w_vacated_reachable w_vacated_room] w_vacated_reachable w_vacated_room
  by (simp add: w_moved_eq e2e4_stored_def initialState_def)

subsection \<open>C9: what a successful join sends\<close>

text \<open>
  C9. A successful join in a reachable state sends, after the snapshot of another room
  that the connection may have left on the way, exactly this: \<open>room_joined\<close> to the joining
  connection, with the room's code and the joiner's colour in lower case (\<open>white\<close> or
  \<open>black\<close>); then \<open>opponent_joined\<close> to the connection of the player who was alone in the
  room, exactly when the join takes the room from one player to two; then the snapshot of
  the room on the room's channel, which the joining connection has joined. The join of an
  identity that is already seated leaves the number of players as it is, so it never sends
  \<open>opponent_joined\<close>.
\<close>

theorem join_notifications:
  assumes "reachable w" and "handleJoinRoom sid now p w = (None, w')"
  shows "\<exists>c u r r' pl pre.
      prop_of p ''code'' = JStr c \<and> prop_of p ''uid'' = JStr u \<and>
      rooms w c = Some r \<and> rooms w' c = Some r' \<and>
      find (\<lambda>q. uid q = u) (players r') = Some pl \<and>
      toLowerCase (color pl) \<in> {''white'', ''black''} \<and>
      outbox w' = outbox w @ pre @
        [(Direct sid, RoomJoined c (toLowerCase (color pl)))] @
        (if length (players r) = 1 \<and> length (players r') = 2
         then [(Channel (socketId (players r ! 0)), OpponentJoined)] else []) @
        [(Channel c,
          RoomState \<lparr>snap_code = c,
                     snap_players = map (\<lambda>q. (uid q, color q)) (players r'),
                     snap_sideToMove = sideToMove r',
                     snap_state = state r'\<rparr>)] \<and>
      (\<forall>m \<in> set pre. \<exists>ch s. m = (Channel ch, RoomState s) \<and> ch \<noteq> c) \<and>
      (u \<in> uid ` set (players r) \<longrightarrow> length (players r') = length (players r)) \<and>
      (sid, c) \<in> joined w'"
proof (cases rule: handleJoinRoom_outcome[of sid now p w])
  case (thrown e)
  with assms(2) show ?thesis by simp
next
  case (entered c u r)
  have ok: "store_ok w" using assms(1) by (rule reachable_store_ok)
  from store_okD[OF ok entered(5)] have cr: "code r = c" by (simp add: room_ok_def)
  let ?w1 = "leave_other sid now c w"
  let ?ps = "fst (seat sid u r)"
  let ?r' = "r\<lparr>players := ?ps, lastActive := now\<rparr>"
  let ?note = "if length ?ps = 2 \<and> findIndex (\<lambda>p. uid p = u) (players r) = None
               then (case find (\<lambda>p. uid p \<noteq> u) ?ps of
                       Some other \<Rightarrow> [(Channel (socketId other), OpponentJoined)]
                     | None \<Rightarrow> [])
               else []"
  from leave_other_outbox[OF ok, of sid now c] obtain pre where
    pre: "outbox ?w1 = outbox w @ pre"
    "\<forall>m \<in> set pre. \<exists>ch s. m = (Channel ch, RoomState s) \<and> ch \<noteq> c"
    by blast
  from assms(2) entered(6) have w': "w' =
      ?w1\<lparr>rooms := (rooms ?w1)(c \<mapsto> ?r'),
           membership := (membership ?w1)(sid \<mapsto> (c, u)),
           joined := insert (sid, c) (joined ?w1),
           outbox := outbox ?w1
             @ [(Direct sid, RoomJoined (code r) (toLowerCase (color (snd (seat sid u r)))))]
             @ ?note
             @ [emitRoomState ?r']\<rparr>"
    unfolding handleJoinRoom_unfold[OF entered(1-5)] by (simp add: Let_def)
  have room': "rooms w' c = Some ?r'" and jn: "(sid, c) \<in> joined w'"
    and out: "outbox w' = outbox w @ pre
             @ [(Direct sid, RoomJoined c (toLowerCase (color (snd (seat sid u r)))))]
             @ ?note
             @ [emitRoomState ?r']"
    unfolding w' using pre(1) cr by simp_all
  have snap: "emitRoomState ?r' =
      (Channel c,
       RoomState \<lparr>snap_code = c,
                  snap_players = map (\<lambda>q. (uid q, color q)) (players ?r'),
                  snap_sideToMove = sideToMove ?r',
                  snap_state = state ?r'\<rparr>)"
    using cr by (simp add: emitRoomState_def)
  have seated: "find (\<lambda>q. uid q = u) ?ps = Some (snd (seat sid u r))"
    and note_eq: "?note =
      (if length (players r) = 1 \<and> length ?ps = 2
       then [(Channel (socketId (players r ! 0)), OpponentJoined)] else [])"
    and same: "u \<in> uid ` set (players r) \<longrightarrow> length ?ps = length (players r)"
  proof -
    show "find (\<lambda>q. uid q = u) ?ps = Some (snd (seat sid u r))"
    proof (cases "findIndex (\<lambda>p. uid p = u) (players r)")
      case None
      then have "\<forall>x \<in> set (players r). \<not> uid x = u" by (simp add: findIndex_None)
      then show ?thesis using None by (simp add: seat_def find_append_new)
    next
      case (Some i)
      from findIndex_Some[OF Some] have "uid (players r ! i) = u" by simp
      then show ?thesis using Some
        by (simp add: seat_def find_updated[where P = "\<lambda>q. uid q = u"])
    qed
    show "?note =
      (if length (players r) = 1 \<and> length ?ps = 2
       then [(Channel (socketId (players r ! 0)), OpponentJoined)] else [])"
    proof (cases "findIndex (\<lambda>p. uid p = u) (players r)")
      case None
      note none = None
      then have nu: "\<forall>x \<in> set (players r). uid x \<noteq> u" by (simp add: findIndex_None)
      show ?thesis
      proof (cases "length (players r) = 1")
        case True
        then obtain p0 where p0: "players r = [p0]" by (cases "players r") auto
        with nu have "uid p0 \<noteq> u" by simp
        with p0 none show ?thesis by (simp add: seat_def)
      next
        case False
        with none show ?thesis by (simp add: seat_def)
      qed
    next
      case (Some i)
      then show ?thesis by (simp add: seat_def)
    qed
    show "u \<in> uid ` set (players r) \<longrightarrow> length ?ps = length (players r)"
    proof
      assume "u \<in> uid ` set (players r)"
      then have "findIndex (\<lambda>p. uid p = u) (players r) \<noteq> None" by (auto simp: findIndex_None)
      then show "length ?ps = length (players r)" by (auto simp: seat_def)
    qed
  qed
  show ?thesis
    apply (rule exI[of _ c], rule exI[of _ u], rule exI[of _ r], rule exI[of _ ?r'],
           rule exI[of _ "snd (seat sid u r)"], rule exI[of _ pre])
    using entered(1,3,5) room' jn out snap seated note_eq same pre(2) toLowerCase_values
    by simp
qed

theorem join_notifications_witness:
  "reachable w_one \<and>
   handleJoinRoom ''s2'' 2 (join_payload ''ABCDEF'' ''u2'') w_one = (None, w_two) \<and>
   outbox w_two = outbox w_one @
     [(Direct ''s2'', RoomJoined ''ABCDEF'' ''black''),
      (Channel ''s1'', OpponentJoined),
      (Channel ''ABCDEF'', snap0 [(''u1'', WHITE), (''u2'', BLACK)] WHITE initialState)] \<and>
   (\<exists>w'. handleJoinRoom ''s3'' 3 (join_payload ''ABCDEF'' ''u1'') w_two = (None, w') \<and>
     outbox w' = outbox w_two @
       [(Direct ''s3'', RoomJoined ''ABCDEF'' ''white''),
        (Channel ''ABCDEF'', snap0 [(''u1'', WHITE), (''u2'', BLACK)] WHITE initialState)])"
  using join_notifications[OF w_one_reachable w_one_join_u2] w_one_reachable w_one_join_u2
    w_two_rejoin_u1
  by (simp add: w_one_eq w_two_eq)

subsection \<open>C10: the old connection of a reconnected player still removes the player\<close>

text \<open>
  C10. In a reachable state, let a connection hold the membership of an identity seated in
  a room, and let the same identity join the room again on another connection. The join succeeds, the player's
  connection id becomes the new connection, and the old connection keeps its membership.
  When the old connection then closes, the player is removed from the room (the room has
  one player less and none with this identity), while the new connection still holds a
  membership naming the identity.
\<close>

theorem stale_connection_removes_player:
  assumes "membership w s_old = Some (c, u)" and "s_new \<noteq> s_old"
    and "prop_of p ''code'' = JStr c" and "c \<noteq> []"
    and "prop_of p ''uid'' = JStr u" and "u \<noteq> []"
    and "rooms w c = Some r" and "u \<in> uid ` set (players r)"
    and "reachable w"
  shows "\<exists>w1 r1 pl r2.
           handleJoinRoom s_new now p w = (None, w1) \<and>
           rooms w1 c = Some r1 \<and>
           find (\<lambda>q. uid q = u) (players r1) = Some pl \<and> socketId pl = s_new \<and>
           membership w1 s_old = Some (c, u) \<and>
           rooms (on_disconnect s_old now' w1) c = Some r2 \<and>
           u \<notin> uid ` set (players r2) \<and>
           length (players r2) = length (players r) - 1 \<and>
           membership (on_disconnect s_old now' w1) s_old = None \<and>
           membership (on_disconnect s_old now' w1) s_new = Some (c, u)"
proof -
  from assms(8) have "findIndex (\<lambda>p. uid p = u) (players r) \<noteq> None"
    by (auto simp: findIndex_None)
  then obtain i where i: "findIndex (\<lambda>p. uid p = u) (players r) = Some i" by blast
  from findIndex_Some[OF i] have il: "i < length (players r)" "uid (players r ! i) = u"
    by simp_all
  let ?pl = "(players r ! i)\<lparr>socketId := s_new\<rparr>"
  let ?ps = "(players r)[i := ?pl]"
  let ?r1 = "r\<lparr>players := ?ps, lastActive := now\<rparr>"
  let ?w0 = "leave_other s_new now c w"
  have s: "fst (seat s_new u r) = ?ps" using i by (simp add: seat_def)
  obtain w1 where w1: "handleJoinRoom s_new now p w = (None, w1)"
    "rooms w1 c = Some ?r1" "membership w1 = (membership ?w0)(s_new \<mapsto> (c, u))"
    unfolding handleJoinRoom_unfold[OF assms(3-7)] using i s by (simp add: Let_def)
  have old: "membership w1 s_old = Some (c, u)"
    using w1(3) assms(1,2) leave_other_membership[of s_old s_new now c w] by simp
  have new: "membership w1 s_new = Some (c, u)" using w1(3) by simp
  have pl: "find (\<lambda>q. uid q = u) ?ps = Some ?pl"
    using il(2) by (simp add: find_updated[OF i, where y = ?pl])
  have i1: "findIndex (\<lambda>p. uid p = u) (players ?r1) = Some i"
    using i il(1) by (simp add: findIndex_reseated)
  let ?wd = "w1\<lparr>joined := {(s, ch). (s, ch) \<in> joined w1 \<and> s \<noteq> s_old}\<rparr>"
  have "membership ?wd s_old = Some (c, u)" "rooms ?wd c = Some ?r1"
    using old w1(2) by simp_all
  from handleDisconnect_found[OF this i1, of now'] obtain r2 where
    r2: "rooms (on_disconnect s_old now' w1) c = Some r2"
    "players r2 = splice1 i ?ps"
    "membership (on_disconnect s_old now' w1) = (membership w1)(s_old := None)"
    by (auto simp: on_disconnect_def)
  have "distinct (map uid (players r))"
    using store_okD[OF reachable_store_ok[OF assms(9)] assms(7)] by (simp add: room_ok_def)
  then have d: "distinct (map uid ?ps)" using il(1) by (simp add: map_uid_update)
  have gone: "u \<notin> uid ` set (players r2)"
    unfolding r2(2) using splice1_removes[OF d, of u i] i1 by simp
  have len: "length (players r2) = length (players r) - 1"
    unfolding r2(2) using il(1) by (simp add: splice1_length)
  show ?thesis
    apply (rule exI[of _ w1], rule exI[of _ ?r1], rule exI[of _ ?pl], rule exI[of _ r2])
    using w1(1,2) pl old r2(1,3) gone len new assms(2)
    by simp
qed

theorem stale_connection_removes_player_witness:
  "membership w_two ''s1'' = Some (''ABCDEF'', ''u1'') \<and>
   handleJoinRoom ''s3'' 3 (join_payload ''ABCDEF'' ''u1'') w_two = (None, w_reconnected) \<and>
   rooms w_reconnected ''ABCDEF'' =
     Some \<lparr>code = ''ABCDEF'',
           players = [\<lparr>uid = ''u1'', color = WHITE, socketId = ''s3''\<rparr>,
                      \<lparr>uid = ''u2'', color = BLACK, socketId = ''s2''\<rparr>],
           state = initialState, sideToMove = WHITE, lastActive = 3\<rparr> \<and>
   rooms (on_disconnect ''s1'' 4 w_reconnected) ''ABCDEF'' =
     Some \<lparr>code = ''ABCDEF'', players = [\<lparr>uid = ''u2'', color = BLACK, socketId = ''s2''\<rparr>],
           state = initialState, sideToMove = WHITE, lastActive = 4\<rparr> \<and>
   membership (on_disconnect ''s1'' 4 w_reconnected) ''s3'' = Some (''ABCDEF'', ''u1'')"
  using stale_connection_removes_player[of w_two "''s1''" "''ABCDEF''" "''u1''" "''s3''"
      "join_payload ''ABCDEF'' ''u1''" "the (rooms w_two ''ABCDEF'')" 3 4]
    w_reconnected_eq w_reconnected_closed w_two_reachable
  by (simp add: w_two_eq join_payload_def)

end
